theory Spec2Isabelle
  imports Complex_Main "HOL-Library.Multiset"
begin

section \<open>Values, errors and array access\<close>

text \<open>
  The script \<^verbatim>\<open>mars_j2.py\<close> reads layered interior models, builds a radius/density
  profile, locates the shell at the base of a lithosphere of thickness \<^verbatim>\<open>d_lith\<close> and
  hands the profile to the external routine \<^verbatim>\<open>HydrostaticShapeLith\<close>.

  Every exception the script can raise is a value of \<open>error\<close>; a computation returns
  \<open>error + 'a\<close> with \<open>Inl\<close> for the raise.  \<open>RuntimeError\<close> is the script's explicit
  \<^verbatim>\<open>raise RuntimeError('Program not capable of reading polynomial files')\<close>.
\<close>

datatype error = RuntimeError | ValueError | IndexError | UnboundLocalError

subsection \<open>Double-precision arithmetic\<close>

text \<open>
  A Python float is a double; it is modelled by the real number it denotes, and comparisons
  of floats are comparisons of these numbers.  The result of an arithmetic operation or of
  \<^verbatim>\<open>float(s)\<close> is the exact result rounded to the nearest double, ties to even: \<open>fl\<close>.
  \<open>rne\<close> rounds to the nearest integer, ties to even.  The quantum of a double near \<open>x\<close>
  is \<open>2 powi fexp x\<close>: 53 significant bits, and the fixed quantum \<open>2 powi (- 1074)\<close> in the
  subnormal range.  The values \<^verbatim>\<open>inf\<close> and \<^verbatim>\<open>nan\<close>, which Python gives from the magnitude
  \<open>2 ^ 1024\<close> on, are outside the model.
\<close>

definition rne :: "real \<Rightarrow> int" where
  "rne y = (let f = \<lfloor>y\<rfloor>; r = y - of_int f
            in if r < 1 / 2 then f else if 1 / 2 < r then f + 1
               else if even f then f else f + 1)"

definition fexp :: "real \<Rightarrow> int" where
  "fexp x = max (\<lfloor>log 2 \<bar>x\<bar>\<rfloor> - 52) (- 1074)"

definition fl :: "real \<Rightarrow> real" where
  "fl x = (if x = 0 then 0 else of_int (rne (x / 2 powi fexp x)) * 2 powi fexp x)"

definition fadd :: "real \<Rightarrow> real \<Rightarrow> real" where
  "fadd a b = fl (a + b)"

definition fsub :: "real \<Rightarrow> real \<Rightarrow> real" where
  "fsub a b = fl (a - b)"

definition fdiv :: "real \<Rightarrow> real \<Rightarrow> real" where
  "fdiv a b = fl (a / b)"

text \<open>The reals that are doubles: rounding leaves them as they are.\<close>

definition is_double :: "real \<Rightarrow> bool" where
  "is_double x = (fl x = x \<and> \<bar>x\<bar> < 2 ^ 1024)"

subsection \<open>Files, fields and arrays\<close>

definition ebind :: "error + 'a \<Rightarrow> ('a \<Rightarrow> error + 'b) \<Rightarrow> error + 'b" where
  "ebind m f = (case m of Inl e \<Rightarrow> Inl e | Inr x \<Rightarrow> f x)"

text \<open>
  A line of an input file is the list of its whitespace-separated fields (\<^verbatim>\<open>line.split()\<close>).
  A field is an integer literal, a decimal floating-point literal (with the real number it
  denotes) or any other word; \<^verbatim>\<open>float(s)\<close> accepts the first two and gives the nearest
  double, \<^verbatim>\<open>int(s)\<close> accepts only the first.  The words \<^verbatim>\<open>inf\<close> and \<^verbatim>\<open>nan\<close>, which
  \<^verbatim>\<open>float\<close> reads as the two values outside the model, are not among the fields.
\<close>

datatype fld = IntLit int | FloatLit real | Word string

type_synonym line = "fld list"
type_synonym textfile = "line list"

fun py_float :: "fld \<Rightarrow> error + real" where
  "py_float (IntLit k) = Inr (fl (real_of_int k))"
| "py_float (FloatLit x) = Inr (fl x)"
| "py_float (Word w) = Inl ValueError"

fun py_int :: "fld \<Rightarrow> error + int" where
  "py_int (IntLit k) = Inr k"
| "py_int (FloatLit x) = Inl ValueError"
| "py_int (Word w) = Inl ValueError"

text \<open>Subscripting with a Python or numpy integer: a negative index counts from the end.\<close>

definition item :: "'a list \<Rightarrow> int \<Rightarrow> error + 'a" where
  "item xs k =
     (let n = int (length xs); j = (if k < 0 then n + k else k)
      in if 0 \<le> j \<and> j < n then Inr (xs ! nat j) else Inl IndexError)"

definition set_item :: "'a list \<Rightarrow> int \<Rightarrow> 'a \<Rightarrow> error + 'a list" where
  "set_item xs k v =
     (let n = int (length xs); j = (if k < 0 then n + k else k)
      in if 0 \<le> j \<and> j < n then Inr (xs[nat j := v]) else Inl IndexError)"

text \<open>Reading a local variable of \<^verbatim>\<open>main\<close> that no assignment has bound yet.\<close>

definition var :: "'a option \<Rightarrow> error + 'a" where
  "var v = (case v of None \<Rightarrow> Inl UnboundLocalError | Some x \<Rightarrow> Inr x)"

text \<open>\<^verbatim>\<open>np.zeros(k)\<close>: a negative dimension raises \<^verbatim>\<open>ValueError\<close>.\<close>

definition np_zeros :: "int \<Rightarrow> error + real list" where
  "np_zeros k = (if k < 0 then Inl ValueError else Inr (replicate (nat k) 0))"

text \<open>
  One data line: \<^verbatim>\<open>data = lines[k].split(); float(data[0]); float(data[1])\<close>, in this order.
\<close>

definition read_entry :: "textfile \<Rightarrow> int \<Rightarrow> error + (real \<times> real)" where
  "read_entry lines k =
     ebind (item lines k) (\<lambda>data.
     ebind (item data 0) (\<lambda>f0.
     ebind (py_float f0) (\<lambda>r.
     ebind (item data 1) (\<lambda>f1.
     ebind (py_float f1) (\<lambda>d. Inr (r, d))))))"

section \<open>The lithosphere locator\<close>

text \<open>
  Lines 103-113 and 164-174 of \<^verbatim>\<open>mars_j2.py\<close> are the same loop:
  \<^verbatim>\<open>
  for i in range(0, m):
      if radius[i] <= (r0_model - d_lith) and radius[i+1] > (r0_model - d_lith):
          if radius[i] == (r0_model - d_lith):
              i_lith = i
          elif (r0_model - d_lith) - radius[i] <= radius[i+1] - (r0_model - d_lith):
              i_lith = i
          else:
              i_lith = i + 1
          break
  \<close>
  \<open>locate_scan\<close> runs it over the remaining indices.  The conjunction short-circuits, so
  \<^verbatim>\<open>radius[i+1]\<close> is read only when \<^verbatim>\<open>radius[i] <= r0_model - d_lith\<close>.  Every
  subtraction is the subtraction of doubles, \<open>fsub\<close>.  The result
  \<open>Inr (Some k)\<close> is the assignment \<^verbatim>\<open>i_lith = k\<close> followed by \<^verbatim>\<open>break\<close>;
  \<open>Inr None\<close> is the loop running to its end without assigning \<^verbatim>\<open>i_lith\<close>.
\<close>

fun locate_scan :: "real list \<Rightarrow> real \<Rightarrow> real \<Rightarrow> nat list \<Rightarrow> error + nat option" where
  "locate_scan radius r0_model d_lith [] = Inr None"
| "locate_scan radius r0_model d_lith (i # is) =
     ebind (item radius (int i)) (\<lambda>ri.
       if ri \<le> fsub r0_model d_lith then
         ebind (item radius (int i + 1)) (\<lambda>rj.
           if rj > fsub r0_model d_lith then
             (if ri = fsub r0_model d_lith then Inr (Some i)
              else if fsub (fsub r0_model d_lith) ri \<le> fsub rj (fsub r0_model d_lith)
                then Inr (Some i)
              else Inr (Some (i + 1)))
           else locate_scan radius r0_model d_lith is)
       else locate_scan radius r0_model d_lith is)"

definition locate :: "real list \<Rightarrow> real \<Rightarrow> real \<Rightarrow> nat \<Rightarrow> error + nat option" where
  "locate radius r0_model d_lith m = locate_scan radius r0_model d_lith [0..<m]"

section \<open>The variables of \<^verbatim>\<open>main\<close>\<close>

text \<open>
  All the code is the body of \<^verbatim>\<open>main\<close>, so a variable assigned while one model is
  processed keeps its value when the next model is read.  \<open>vars\<close> holds the variables
  that are assigned only on some paths: \<^verbatim>\<open>i_lith\<close> (assigned when the locator finds a
  pair), \<^verbatim>\<open>i_crust\<close> and \<^verbatim>\<open>i_core\<close> (assigned at a marked boundary pair) and
  \<^verbatim>\<open>rt\<close> (assigned in the body of the deck loop); \<open>None\<close> is a variable that is not
  bound yet.  Two further components record what the run does: \<open>calls\<close>, the arguments
  \<^verbatim>\<open>(radius, rho, i_lith)\<close> of every call of \<^verbatim>\<open>HydrostaticShapeLith\<close>, and
  \<open>deck_out\<close>, the quantities printed for every deck model (in metres and kg/m3,
  before the formatting of \<^verbatim>\<open>print\<close>).
\<close>

record deck_report =
  surface_radius :: real
  rho_mantle :: real
  r_mantle :: real
  rho_core :: real
  r_core :: real
  actual_depth :: real
  percent_h20 :: real

record vars =
  i_lith :: "nat option"
  i_crust :: "nat option"
  i_core :: "nat option"
  rt :: "real option"
  calls :: "(real list \<times> real list \<times> nat) list"
  deck_out :: "deck_report list"

definition init_vars :: vars where
  "init_vars = \<lparr>i_lith = None, i_crust = None, i_core = None, rt = None,
                 calls = [], deck_out = []\<rparr>"

text \<open>
  The external routine is a parameter \<open>hydro\<close>: from \<^verbatim>\<open>radius\<close>, \<^verbatim>\<open>rho\<close> and
  \<^verbatim>\<open>i_lith\<close> it gives the percentage
  \<^verbatim>\<open>clm_hydro.coeffs[0, 2, 0] / potential.coeffs[0, 2, 0]*100\<close>; its other arguments are
  the same in every call.
\<close>

type_synonym collaborator = "real list \<Rightarrow> real list \<Rightarrow> nat \<Rightarrow> real"

section \<open>The deck parser\<close>

text \<open>
  The arrays \<^verbatim>\<open>radius\<close>, \<^verbatim>\<open>rho\<close> and the output index \<^verbatim>\<open>num\<close> of the model being
  read extend the variables.
\<close>

record deck_vars = vars +
  radius :: "real list"
  rho :: "real list"
  num :: nat

text \<open>
  The body of the loop of lines 76-92, for the entry pair \<open>(i, i+1)\<close>:
  \<^verbatim>\<open>
  data = lines[i+3].split(); rb = float(data[0]); rhob = float(data[1])
  data = lines[i+4].split(); rt = float(data[0]); rhot = float(data[1])
  if rb == rt:
      if i == i_core_file: i_core = num
      if i == i_crust_file: i_crust = num
  else:
      radius[num] = rb
      rho[num] = (rhot + rhob) / 2.
      num += 1
  \<close>
\<close>

definition deck_body :: "textfile \<Rightarrow> int \<Rightarrow> int \<Rightarrow> nat \<Rightarrow> deck_vars \<Rightarrow> error + deck_vars" where
  "deck_body lines i_core_file i_crust_file i v =
     ebind (read_entry lines (int i + 3)) (\<lambda>(rb, rhob).
     ebind (read_entry lines (int i + 4)) (\<lambda>(rt', rhot).
       let v1 = v\<lparr>rt := Some rt'\<rparr> in
       if rb = rt' then
         (let v2 = (if int i = i_core_file then v1\<lparr>i_core := Some (num v1)\<rparr> else v1);
              v3 = (if int i = i_crust_file then v2\<lparr>i_crust := Some (num v2)\<rparr> else v2)
          in Inr v3)
       else
         ebind (set_item (radius v1) (int (num v1)) rb) (\<lambda>radius'.
         ebind (set_item (rho v1) (int (num v1)) (fdiv (fadd rhot rhob) 2)) (\<lambda>rho'.
           Inr (v1\<lparr>radius := radius', rho := rho', num := num v1 + 1\<rparr>)))))"

fun deck_loop :: "textfile \<Rightarrow> int \<Rightarrow> int \<Rightarrow> nat list \<Rightarrow> deck_vars \<Rightarrow> error + deck_vars" where
  "deck_loop lines i_core_file i_crust_file [] v = Inr v"
| "deck_loop lines i_core_file i_crust_file (i # is) v =
     ebind (deck_body lines i_core_file i_crust_file i v)
       (deck_loop lines i_core_file i_crust_file is)"

text \<open>
  Lines 61-70, the header: the title line must exist, field 2 of line 1 must read as the
  number 1, and line 2 gives \<^verbatim>\<open>num_file\<close>, \<^verbatim>\<open>crust_index_file\<close> (field 3) and
  \<^verbatim>\<open>core_index_file\<close> (field 2), read in this order.
\<close>

definition deck_header :: "textfile \<Rightarrow> error + (int \<times> int \<times> int)" where
  "deck_header lines =
     ebind (item lines 0) (\<lambda>title.
     ebind (item lines 1) (\<lambda>data.
     ebind (item data 2) (\<lambda>f.
     ebind (py_float f) (\<lambda>flag.
     if flag \<noteq> 1 then Inl RuntimeError
     else
     ebind (item lines 2) (\<lambda>l2.
     ebind (item l2 0) (\<lambda>f0.
     ebind (py_int f0) (\<lambda>num_file.
     ebind (item l2 3) (\<lambda>f3.
     ebind (py_int f3) (\<lambda>crust_index_file.
     ebind (item l2 2) (\<lambda>f2.
     ebind (py_int f2) (\<lambda>core_index_file.
       Inr (num_file, crust_index_file, core_index_file))))))))))))"

text \<open>
  The variables when the loop starts (lines 72-74): the two arrays of zeros and
  \<^verbatim>\<open>num = 0\<close>, beside the variables left by the models read before.
\<close>

definition deck_start :: "vars \<Rightarrow> real list \<Rightarrow> real list \<Rightarrow> deck_vars" where
  "deck_start st radius0 rho0 =
     \<lparr>i_lith = i_lith st, i_crust = i_crust st, i_core = i_core st, rt = rt st,
      calls = calls st, deck_out = deck_out st,
      radius = radius0, rho = rho0, num = 0\<rparr>"

text \<open>
  Lines 61-99: the header, the loop over \<^verbatim>\<open>range(0, num_file-1)\<close>, the surface row and
  the slices \<^verbatim>\<open>radius[:n+1]\<close>, \<^verbatim>\<open>rho[:n+1]\<close>.  In the result \<open>num\<close> is the number of
  rows, \<open>n + 1\<close>.
\<close>

definition deck_parse :: "textfile \<Rightarrow> vars \<Rightarrow> error + deck_vars" where
  "deck_parse lines st =
     ebind (deck_header lines) (\<lambda>(num_file, crust_index_file, core_index_file).
     let i_crust_file = crust_index_file - 1;
         i_core_file = core_index_file - 1
     in
     ebind (np_zeros num_file) (\<lambda>radius0.
     ebind (np_zeros num_file) (\<lambda>rho0.
     ebind (deck_loop lines i_core_file i_crust_file [0..<nat (num_file - 1)]
              (deck_start st radius0 rho0)) (\<lambda>v.
     ebind (var (rt v)) (\<lambda>rt'.
     ebind (set_item (radius v) (int (num v)) rt') (\<lambda>radius1.
     ebind (set_item (rho v) (int (num v)) 0) (\<lambda>rho1.
     let num1 = num v + 1;
         n = num1 - 1
     in Inr (v\<lparr>radius := take (n + 1) radius1, rho := take (n + 1) rho1,
               num := num1\<rparr>))))))))"

text \<open>
  Lines 100-132 for one deck model: the surface radius, the locator, the reported mantle
  and core quantities, the depth of the located shell and the external call.
\<close>

definition deck_model :: "collaborator \<Rightarrow> real \<Rightarrow> textfile \<Rightarrow> vars \<Rightarrow> error + vars" where
  "deck_model hydro d_lith lines st =
     ebind (deck_parse lines st) (\<lambda>v.
     let n = num v - 1 in
     ebind (item (radius v) (int n)) (\<lambda>r0_model.
     ebind (locate (radius v) r0_model d_lith (n + 1)) (\<lambda>found.
     let lith = (case found of None \<Rightarrow> i_lith v | Some k \<Rightarrow> Some k) in
     ebind (var (i_crust v)) (\<lambda>ic.
     ebind (item (rho v) (int ic - 1)) (\<lambda>rho_m.
     ebind (var (i_core v)) (\<lambda>io.
     ebind (item (rho v) (int io - 1)) (\<lambda>rho_c.
     ebind (item (radius v) (int ic)) (\<lambda>r_m.
     ebind (item (radius v) (int io)) (\<lambda>r_c.
     ebind (var lith) (\<lambda>il.
     ebind (item (radius v) (int il)) (\<lambda>r_lith.
     let percent = hydro (radius v) (rho v) il in
     Inr \<lparr>i_lith = lith, i_crust = i_crust v, i_core = i_core v, rt = rt v,
          calls = calls v @ [(radius v, rho v, il)],
          deck_out = deck_out v @
            [\<lparr>surface_radius = r0_model, rho_mantle = rho_m, r_mantle = r_m,
              rho_core = rho_c, r_core = r_c, actual_depth = fsub r0_model r_lith,
              percent_h20 = percent\<rparr>]\<rparr>)))))))))))"

text \<open>The loop of line 57 over the deck files: an exception ends the run.\<close>

fun deck_batch :: "collaborator \<Rightarrow> real \<Rightarrow> textfile list \<Rightarrow> vars \<Rightarrow> error + vars" where
  "deck_batch hydro d_lith [] st = Inr st"
| "deck_batch hydro d_lith (lines # rest) st =
     ebind (deck_model hydro d_lith lines st) (deck_batch hydro d_lith rest)"

section \<open>The tabulated models and the batch statistics\<close>

text \<open>
  The second loop (lines 144-195) also keeps the running minimum and maximum
  \<^verbatim>\<open>pmin\<close>, \<^verbatim>\<open>pmax\<close> of the percentages; \<open>tab_out\<close> records, for every model, the
  printed surface radius, depth of the located shell and percentage.
\<close>

record tab_vars = vars +
  pmin :: real
  pmax :: real
  tab_out :: "(real \<times> real \<times> real) list"

text \<open>
  Lines 155-158, over the remaining indices:
  \<^verbatim>\<open>
  data = lines[i+4].split()
  radius[i] = float(data[0])
  rho[i] = float(data[1])
  \<close>
\<close>

fun tab_fill :: "textfile \<Rightarrow> nat list \<Rightarrow> real list \<times> real list \<Rightarrow> error + (real list \<times> real list)" where
  "tab_fill lines [] (radius_arr, rho_arr) = Inr (radius_arr, rho_arr)"
| "tab_fill lines (i # is) (radius_arr, rho_arr) =
     ebind (item lines (int i + 4)) (\<lambda>data.
     ebind (item data 0) (\<lambda>f0.
     ebind (py_float f0) (\<lambda>r.
     ebind (set_item radius_arr (int i) r) (\<lambda>radius'.
     ebind (item data 1) (\<lambda>f1.
     ebind (py_float f1) (\<lambda>d.
     ebind (set_item rho_arr (int i) d) (\<lambda>rho'.
       tab_fill lines is (radius', rho'))))))))"

text \<open>Lines 150-177: the profile of a tabulated model and the locator.\<close>

definition tab_parse :: "real \<Rightarrow> textfile \<Rightarrow> nat option \<Rightarrow> error + (real list \<times> real list \<times> real \<times> nat option)" where
  "tab_parse d_lith lines lith0 =
     (let num = int (length lines) - 4 in
      ebind (np_zeros num) (\<lambda>radius0.
      ebind (np_zeros num) (\<lambda>rho0.
      ebind (tab_fill lines [0..<nat num] (radius0, rho0)) (\<lambda>(radius, rho).
      ebind (item radius (num - 1)) (\<lambda>r0_model.
      ebind (locate radius r0_model d_lith (nat num)) (\<lambda>found.
      let lith = (case found of None \<Rightarrow> lith0 | Some k \<Rightarrow> Some k);
          n = num - 1
      in
      ebind (set_item rho n 0) (\<lambda>rho1.
        Inr (radius, rho1, r0_model, lith))))))))"

text \<open>Lines 148-195 for one tabulated model.\<close>

definition tab_model :: "collaborator \<Rightarrow> real \<Rightarrow> textfile \<Rightarrow> tab_vars \<Rightarrow> error + tab_vars" where
  "tab_model hydro d_lith lines st =
     ebind (tab_parse d_lith lines (i_lith st)) (\<lambda>(radius, rho, r0_model, lith).
     ebind (var lith) (\<lambda>il.
     ebind (item radius (int il)) (\<lambda>r_lith.
     let percent = hydro radius rho il;
         st1 = st\<lparr>i_lith := lith, calls := calls st @ [(radius, rho, il)],
                  tab_out := tab_out st @ [(r0_model, fsub r0_model r_lith, percent)]\<rparr>;
         st2 = (if percent > pmax st1 then st1\<lparr>pmax := percent\<rparr> else st1);
         st3 = (if percent < pmin st2 then st2\<lparr>pmin := percent\<rparr> else st2)
     in Inr st3)))"

text \<open>
  The loop of line 144 over the sorted directory listing.  An entry of the listing is
  the extension of its name (\<^verbatim>\<open>os.path.splitext(file)[1]\<close>) and the lines of the file;
  an entry whose extension is not \<^verbatim>\<open>.dat\<close> is skipped without being opened.
\<close>

fun tab_batch :: "collaborator \<Rightarrow> real \<Rightarrow> (string \<times> textfile) list \<Rightarrow> tab_vars \<Rightarrow> error + tab_vars" where
  "tab_batch hydro d_lith [] st = Inr st"
| "tab_batch hydro d_lith ((ext, lines) # rest) st =
     (if ext \<noteq> ''.dat'' then tab_batch hydro d_lith rest st
      else ebind (tab_model hydro d_lith lines st) (tab_batch hydro d_lith rest))"

text \<open>
  The whole run: the deck files, then \<^verbatim>\<open>pmin = 100\<close>, \<^verbatim>\<open>pmax = 0\<close>, then the
  tabulated models; line 197 prints \<^verbatim>\<open>pmin\<close> and \<^verbatim>\<open>pmax\<close>.  The script fixes
  \<^verbatim>\<open>d_lith = 150.e3\<close>; \<open>run\<close> takes the thickness as a parameter.
\<close>

definition start_tab :: "vars \<Rightarrow> tab_vars" where
  "start_tab st = \<lparr>i_lith = i_lith st, i_crust = i_crust st, i_core = i_core st, rt = rt st,
                   calls = calls st, deck_out = deck_out st,
                   pmin = 100, pmax = 0, tab_out = []\<rparr>"

definition run :: "collaborator \<Rightarrow> real \<Rightarrow> textfile list \<Rightarrow> (string \<times> textfile) list \<Rightarrow> error + tab_vars" where
  "run hydro d_lith interior_file models =
     ebind (deck_batch hydro d_lith interior_file init_vars) (\<lambda>st.
       tab_batch hydro d_lith models (start_tab st))"

definition main :: "collaborator \<Rightarrow> textfile list \<Rightarrow> (string \<times> textfile) list \<Rightarrow> error + tab_vars" where
  "main hydro interior_file models = run hydro 150000 interior_file models"

section \<open>The parsers as the specification describes them\<close>

text \<open>
  The entries of a deck are the lines from line 3 on; \<open>deck_entries lines N\<close> reads the
  first \<open>N\<close> of them, and \<open>table_rows lines\<close> reads every line of a tabulated file after
  its four header lines.
\<close>

definition deck_entries :: "textfile \<Rightarrow> nat \<Rightarrow> (error + real \<times> real) list" where
  "deck_entries lines N = map (\<lambda>i. read_entry lines (int i + 3)) [0..<N]"

definition table_rows :: "textfile \<Rightarrow> (error + real \<times> real) list" where
  "table_rows lines = map (\<lambda>i. read_entry lines (int i + 4)) [0..<length lines - 4]"

text \<open>
  Entries whose radii are finite doubles.  Where the rounding of a literal reaches the
  magnitude \<open>2 ^ 1024\<close>, \<^verbatim>\<open>float\<close> gives \<^verbatim>\<open>inf\<close>, which equals itself and absorbs every
  finite thickness; the properties that rest on comparisons of parsed radii are stated for
  files without such radii.
\<close>

definition finite_radii :: "(real \<times> real) list \<Rightarrow> bool" where
  "finite_radii es = list_all (\<lambda>e. \<bar>fst e\<bar> < 2 ^ 1024) es"

text \<open>
  The specification's account of the deck loop, on the list \<open>es\<close> of entries: the pair
  \<open>(i, i+1)\<close> is a boundary pair when the two radii are equal; every other pair gives
  one row, at the bottom radius with the mean of the two densities (their sum halved, in
  double arithmetic).  \<open>spec_rows es k\<close>
  are the rows given by the pairs \<open>0, \<dots>, k-1\<close>, and \<open>spec_marker es k m old\<close> is the index
  recorded for the zero-based marker entry \<open>m\<close> after these pairs: the number of rows
  emitted before pair \<open>m\<close> when that pair is one of them and a boundary pair
  (\<open>marker_pair\<close>), and the old value otherwise.
\<close>

definition boundary_pair :: "(real \<times> real) list \<Rightarrow> nat \<Rightarrow> bool" where
  "boundary_pair es i = (fst (es ! i) = fst (es ! Suc i))"

definition spec_row :: "(real \<times> real) list \<Rightarrow> nat \<Rightarrow> real \<times> real" where
  "spec_row es i = (fst (es ! i), fdiv (fadd (snd (es ! i)) (snd (es ! Suc i))) 2)"

definition spec_rows :: "(real \<times> real) list \<Rightarrow> nat \<Rightarrow> (real \<times> real) list" where
  "spec_rows es k = map (spec_row es) (filter (\<lambda>i. \<not> boundary_pair es i) [0..<k])"

definition marker_pair :: "(real \<times> real) list \<Rightarrow> nat \<Rightarrow> int \<Rightarrow> bool" where
  "marker_pair es k m = (0 \<le> m \<and> nat m < k \<and> boundary_pair es (nat m))"

definition spec_marker :: "(real \<times> real) list \<Rightarrow> nat \<Rightarrow> int \<Rightarrow> nat option \<Rightarrow> nat option" where
  "spec_marker es k m old =
     (if marker_pair es k m then Some (length (spec_rows es (nat m))) else old)"

text \<open>The percentages printed for the tabulated models, in the order of the run.\<close>

definition percents :: "tab_vars \<Rightarrow> real list" where
  "percents st = map (\<lambda>(r0_model, depth, percent). percent) (tab_out st)"

text \<open>
  The variables of the deck loop after the pairs \<open>0, \<dots>, k-1\<close> of a deck with \<open>N\<close> declared
  entries, in these terms: the rows fill the front of the two arrays of length \<open>N\<close>, the
  output index is their number, and \<^verbatim>\<open>rt\<close> is the radius of entry \<open>k\<close>.
\<close>

definition loop_result :: "(real \<times> real) list \<Rightarrow> nat \<Rightarrow> int \<Rightarrow> int \<Rightarrow> nat \<Rightarrow> deck_vars \<Rightarrow> deck_vars" where
  "loop_result es N cf kf k v0 =
     v0\<lparr>rt := (if k = 0 then rt v0 else Some (fst (es ! k))),
        i_core := spec_marker es k cf (i_core v0),
        i_crust := spec_marker es k kf (i_crust v0),
        radius := map fst (spec_rows es k) @ replicate (N - length (spec_rows es k)) 0,
        rho := map snd (spec_rows es k) @ replicate (N - length (spec_rows es k)) 0,
        num := length (spec_rows es k)\<rparr>"


section \<open>Properties of the rounding\<close>

lemma rne_of_int: "rne (of_int n) = n"
  by (simp add: rne_def)

lemma rne_ge: "of_int n \<le> y \<Longrightarrow> n \<le> rne y"
proof -
  assume "of_int n \<le> y"
  then have "n \<le> \<lfloor>y\<rfloor>" by (simp add: le_floor_iff)
  then show ?thesis by (auto simp: rne_def Let_def)
qed

lemma rne_le: "y \<le> of_int n \<Longrightarrow> rne y \<le> n"
proof (cases "y = of_int n")
  case True
  then show ?thesis by (simp add: rne_of_int)
next
  case False
  assume "y \<le> of_int n"
  then have "y < of_int n" using False by simp
  then have "\<lfloor>y\<rfloor> < n" by (simp add: floor_less_iff)
  then show ?thesis by (auto simp: rne_def Let_def)
qed

lemma rne_near: "\<bar>y - of_int n\<bar> < 1 / 2 \<Longrightarrow> rne y = n"
proof -
  assume a: "\<bar>y - of_int n\<bar> < 1 / 2"
  show ?thesis
  proof (cases "of_int n \<le> y")
    case True
    then have "\<lfloor>y\<rfloor> = n" using a by (intro floor_unique) auto
    then show ?thesis using a True by (simp add: rne_def)
  next
    case False
    then have "\<lfloor>y\<rfloor> = n - 1" using a by (intro floor_unique) auto
    then show ?thesis using a False by (simp add: rne_def)
  qed
qed

lemma floor_log2_eq:
  assumes "2 powi e \<le> \<bar>x\<bar>" and "\<bar>x\<bar> < 2 powi (e + 1)"
  shows "\<lfloor>log 2 \<bar>x\<bar>\<rfloor> = e"
proof -
  have pos: "0 < \<bar>x\<bar>" using assms(1) by (smt (verit) zero_less_power_int)
  have p: "(2::real) powr real_of_int k = 2 powi k" for k
    by (simp add: powr_real_of_int')
  have "(2::real) powr real_of_int e = 2 powi e" "(2::real) powr (real_of_int e + 1) = 2 powi (e + 1)"
    using p [of e] p [of "e + 1"] by simp_all
  then show ?thesis
    using assms floor_log_eq_powr_iff [of "\<bar>x\<bar>" 2 e] pos by simp
qed

lemma floor_log2_bounds:
  assumes "x \<noteq> 0"
  shows "2 powi \<lfloor>log 2 \<bar>x\<bar>\<rfloor> \<le> \<bar>x\<bar>" and "\<bar>x\<bar> < 2 powi (\<lfloor>log 2 \<bar>x\<bar>\<rfloor> + 1)"
proof -
  have pos: "0 < \<bar>x\<bar>" using assms by simp
  have p: "(2::real) powr real_of_int k = 2 powi k" for k
    by (simp add: powr_real_of_int')
  have b: "2 powr real_of_int \<lfloor>log 2 \<bar>x\<bar>\<rfloor> \<le> \<bar>x\<bar> \<and> \<bar>x\<bar> < 2 powr (real_of_int \<lfloor>log 2 \<bar>x\<bar>\<rfloor> + 1)"
    using floor_log_eq_powr_iff [of "\<bar>x\<bar>" 2 "\<lfloor>log 2 \<bar>x\<bar>\<rfloor>"] pos by simp
  show "2 powi \<lfloor>log 2 \<bar>x\<bar>\<rfloor> \<le> \<bar>x\<bar>" using b p [of "\<lfloor>log 2 \<bar>x\<bar>\<rfloor>"] by simp
  show "\<bar>x\<bar> < 2 powi (\<lfloor>log 2 \<bar>x\<bar>\<rfloor> + 1)" using b p [of "\<lfloor>log 2 \<bar>x\<bar>\<rfloor> + 1"] by simp
qed

lemma fl_at:
  assumes "2 powi e \<le> \<bar>x\<bar>" and "\<bar>x\<bar> < 2 powi (e + 1)"
  shows "fl x = of_int (rne (x / 2 powi max (e - 52) (- 1074))) * 2 powi max (e - 52) (- 1074)"
proof -
  have "x \<noteq> 0" using assms(1) by (smt (verit) zero_less_power_int abs_zero)
  then show ?thesis by (simp add: fl_def fexp_def floor_log2_eq [OF assms])
qed


lemma fexp_ge: "- 1074 \<le> fexp x"
  by (simp add: fexp_def)

lemma fl_multiple:
  assumes "x = of_int m * 2 powi fexp x"
  shows "fl x = x"
proof (cases "x = 0")
  case True
  then show ?thesis by (simp add: fl_def)
next
  case False
  have "x / 2 powi fexp x = of_int m"
    using assms by (metis nonzero_mult_div_cancel_right power_int_eq_0_iff zero_neq_numeral)
  then show ?thesis using False assms by (simp add: fl_def rne_of_int)
qed

lemma powi_split:
  assumes "q \<le> j"
  shows "(2::real) powi j = of_int (2 ^ nat (j - q)) * 2 powi q"
proof -
  have "(2::real) powi j = 2 powi (j - q) * 2 powi q"
    by (simp flip: power_int_add)
  also have "(2::real) powi (j - q) = 2 ^ nat (j - q)"
    using assms by (simp add: power_int_def)
  finally show ?thesis by simp
qed

lemma floor_log2_less:
  assumes "x \<noteq> 0" and "\<bar>x\<bar> < 2 powi k"
  shows "\<lfloor>log 2 \<bar>x\<bar>\<rfloor> < k"
proof (rule ccontr)
  assume "\<not> \<lfloor>log 2 \<bar>x\<bar>\<rfloor> < k"
  then have "(2::real) powi k \<le> 2 powi \<lfloor>log 2 \<bar>x\<bar>\<rfloor>"
    by (intro power_int_increasing) auto
  then show False using floor_log2_bounds(1) [OF assms(1)] assms(2) by linarith
qed

lemma fl_dyadic:
  assumes x: "x = of_int m * 2 powi j" and m: "\<bar>m\<bar> < 2 ^ 53" and j: "- 1074 \<le> j"
  shows "fl x = x"
proof (cases "x = 0")
  case True
  then show ?thesis by (simp add: fl_def)
next
  case False
  have "\<bar>x\<bar> = of_int \<bar>m\<bar> * 2 powi j"
    using x by (simp add: abs_mult)
  also have "\<dots> < 2 ^ 53 * 2 powi j"
  proof -
    have "(of_int \<bar>m\<bar> :: real) < of_int (2 ^ 53)" using m by (simp only: of_int_less_iff)
    then show ?thesis by (intro mult_strict_right_mono) auto
  qed
  also have "\<dots> = 2 powi (53 + j)"
    by (simp add: power_int_add)
  finally have "\<lfloor>log 2 \<bar>x\<bar>\<rfloor> < 53 + j" by (rule floor_log2_less [OF False])
  then have q: "fexp x \<le> j" using j by (simp add: fexp_def)
  have "x = of_int (m * 2 ^ nat (j - fexp x)) * 2 powi fexp x"
    using x powi_split [OF q] by simp
  then show ?thesis by (rule fl_multiple)
qed

lemma fl_of_int: "\<bar>k\<bar> < 2 ^ 53 \<Longrightarrow> fl (of_int k) = of_int k"
  using fl_dyadic [of "of_int k" k 0] by simp

lemma fl_zero [simp]: "fl 0 = 0"
  by (simp add: fl_def)

lemma fl_one [simp]: "fl 1 = 1"
  using fl_of_int [of 1] by simp

lemma fl_numeral [simp]: "(numeral n :: int) < 9007199254740992 \<Longrightarrow> fl (numeral n) = numeral n"
  using fl_of_int [of "numeral n"] by simp

lemma fl_neg_numeral [simp]:
  "(numeral n :: int) < 9007199254740992 \<Longrightarrow> fl (- numeral n) = - numeral n"
  using fl_of_int [of "- numeral n"] by simp

lemma fl_absorbs_small_thickness: "fl (2000 - 1 / 2 ^ 44) = 2000"
proof -
  have "fl (2000 - 1 / 2 ^ 44) = of_int (rne ((2000 - 1 / 2 ^ 44) / 2 powi max (10 - 52) (- 1074)))
      * 2 powi max (10 - 52) (- 1074)"
    by (rule fl_at) simp_all
  moreover have "rne ((2000 - 1 / 2 ^ 44) / 2 powi (- 42)) = 2000 * 2 ^ 42"
    by (rule rne_near) simp
  ultimately show ?thesis by simp
qed

lemma fl_absorbs_150km: "fl (10 ^ 22 - 150000) = 10 ^ 22"
proof -
  have "fl (10 ^ 22 - 150000) = of_int (rne ((10 ^ 22 - 150000) / 2 powi max (73 - 52) (- 1074)))
      * 2 powi max (73 - 52) (- 1074)"
    by (rule fl_at) simp_all
  moreover have "rne ((10 ^ 22 - 150000) / 2 powi 21) = 2 * 5 ^ 22"
    by (rule rne_near) simp
  ultimately show ?thesis by simp
qed

lemma fl_ten_22: "fl (10 ^ 22) = 10 ^ 22"
  using fl_dyadic [of "10 ^ 22" "5 ^ 22" 22] by simp


lemma fl_eq:
  "x \<noteq> 0 \<Longrightarrow> fl x = of_int (rne (x / 2 powi fexp x)) * 2 powi fexp x"
  by (simp add: fl_def)

lemma fl_not_below_double:
  assumes dx: "fl x = x" and le: "x \<le> y"
  shows "x \<le> fl y"
proof (cases "y = 0")
  case True
  then show ?thesis using le by simp
next
  case y: False
  let ?u = "(2::real) powi fexp y"
  have u: "0 < ?u" by simp
  have fy: "fl y = of_int (rne (y / ?u)) * ?u" by (rule fl_eq [OF y])
  have grid: "x \<le> fl y" if m: "x = of_int M * ?u" for M
  proof -
    have "of_int M * ?u \<le> y" using le m by simp
    then have "of_int M \<le> y / ?u" using u by (simp add: pos_le_divide_eq)
    then have "M \<le> rne (y / ?u)" by (rule rne_ge)
    then have "(of_int M :: real) \<le> of_int (rne (y / ?u))" by simp
    then have "of_int M * ?u \<le> of_int (rne (y / ?u)) * ?u"
      using u by (intro mult_right_mono) auto
    then show ?thesis using m fy by simp
  qed
  show ?thesis
  proof (cases "x = 0")
    case True
    then show ?thesis using grid [of 0] by simp
  next
    case x: False
    have xm: "x = of_int (rne (x / 2 powi fexp x)) * 2 powi fexp x"
      using dx fl_eq [OF x] by simp
    show ?thesis
    proof (cases "fexp y \<le> fexp x")
      case True
      have "x = of_int (rne (x / 2 powi fexp x) * 2 ^ nat (fexp x - fexp y)) * ?u"
        using xm powi_split [OF True] by simp
      then show ?thesis by (rule grid)
    next
      case False
      then have lt: "fexp x < fexp y" by simp
      let ?ey = "\<lfloor>log 2 \<bar>y\<bar>\<rfloor>"
      have ex: "\<lfloor>log 2 \<bar>x\<bar>\<rfloor> < ?ey" and qy: "fexp y = ?ey - 52"
        using lt by (auto simp: fexp_def max_def split: if_splits)
      have "\<bar>x\<bar> < 2 powi (\<lfloor>log 2 \<bar>x\<bar>\<rfloor> + 1)" by (rule floor_log2_bounds(2) [OF x])
      also have "\<dots> \<le> 2 powi ?ey" using ex by (intro power_int_increasing) auto
      finally have xlt: "\<bar>x\<bar> < 2 powi ?ey" .
      have ylow: "2 powi ?ey \<le> \<bar>y\<bar>" by (rule floor_log2_bounds(1) [OF y])
      have ypos: "0 < y" using xlt ylow le by linarith
      have big: "(2::real) powi ?ey = of_int (2 ^ 52) * ?u"
        using powi_split [of "fexp y" ?ey] qy by simp
      then have "of_int (2 ^ 52) * ?u \<le> y" using ylow ypos by simp
      then have "of_int (2 ^ 52) \<le> y / ?u" using u by (simp add: pos_le_divide_eq)
      then have "2 ^ 52 \<le> rne (y / ?u)" by (rule rne_ge)
      then have "(of_int (2 ^ 52) :: real) \<le> of_int (rne (y / ?u))" by (simp only: of_int_le_iff)
      then have "of_int (2 ^ 52) * ?u \<le> of_int (rne (y / ?u)) * ?u"
        using u by (intro mult_right_mono) auto
      then have "2 powi ?ey \<le> fl y" using big fy by simp
      then show ?thesis using xlt by linarith
    qed
  qed
qed

lemma fl_negative:
  assumes "y \<le> - (2 powi (- 1074))"
  shows "fl y < 0"
proof -
  have y: "y \<noteq> 0" using assms by (smt (verit) zero_less_power_int)
  let ?u = "(2::real) powi fexp y"
  have u: "0 < ?u" by simp
  have "?u \<le> \<bar>y\<bar>"
  proof (cases "fexp y = - 1074")
    case True
    then show ?thesis using assms by simp
  next
    case False
    then have "fexp y = \<lfloor>log 2 \<bar>y\<bar>\<rfloor> - 52" by (auto simp: fexp_def max_def split: if_splits)
    then have "?u \<le> 2 powi \<lfloor>log 2 \<bar>y\<bar>\<rfloor>" by (intro power_int_increasing) auto
    then show ?thesis using floor_log2_bounds(1) [OF y] by linarith
  qed
  moreover have "y < 0" using assms by (smt (verit) zero_less_power_int)
  ultimately have "y \<le> - ?u" by linarith
  then have "y / ?u \<le> of_int (- 1)" using u by (simp add: pos_divide_le_eq)
  then have "rne (y / ?u) \<le> - 1" by (rule rne_le)
  then have "(of_int (rne (y / ?u)) :: real) \<le> - 1"
    by (metis of_int_le_iff of_int_minus of_int_1)
  then have "of_int (rne (y / ?u)) * ?u \<le> - 1 * ?u"
    using u by (intro mult_right_mono) auto
  then show ?thesis using fl_eq [OF y] u by linarith
qed

lemma grid_coarser:
  "x = of_int M * u \<Longrightarrow> u = of_int P * v \<Longrightarrow> (x::real) = of_int (M * P) * v"
  by simp

lemma double_on_grid:
  assumes "fl x = x"
  shows "\<exists>k. x = of_int k * 2 powi (- 1074)"
proof (cases "x = 0")
  case True
  then show ?thesis by (intro exI [of _ 0]) simp
next
  case False
  have "x = of_int (rne (x / 2 powi fexp x)) * 2 powi fexp x"
    using assms fl_eq [OF False] by simp
  then have "x = of_int (rne (x / 2 powi fexp x) * 2 ^ nat (fexp x - (- 1074))) * 2 powi (- 1074)"
    by (rule grid_coarser) (rule powi_split [OF fexp_ge])
  then show ?thesis by blast
qed

lemma fl_sub_negative:
  assumes "fl a = a" and "fl b = b" and "a < b"
  shows "fl (a - b) < 0"
proof -
  obtain k l where k: "a = of_int k * 2 powi (- 1074)" and l: "b = of_int l * 2 powi (- 1074)"
    using double_on_grid [OF assms(1)] double_on_grid [OF assms(2)] by blast
  have u: "(0::real) < 2 powi (- 1074)" by simp
  have "(of_int k :: real) < of_int l"
    using assms(3) u unfolding k l by (simp only: mult_less_cancel_right_pos)
  then have "k - l \<le> - 1" by simp
  then have "(of_int (k - l) :: real) \<le> - 1"
    by (metis of_int_le_iff of_int_minus of_int_1)
  then have "of_int (k - l) * 2 powi (- 1074) \<le> - 1 * (2::real) powi (- 1074)"
    using u by (intro mult_right_mono) auto
  moreover have "a - b = of_int (k - l) * 2 powi (- 1074)"
    unfolding k l by (simp add: algebra_simps)
  ultimately have "a - b \<le> - (2 powi (- 1074))" by simp
  then show ?thesis by (rule fl_negative)
qed

lemma fl_below_double_exact:
  "fl (a - b) = a - b \<Longrightarrow> 0 < b \<Longrightarrow> fsub a b < a"
  by (simp add: fsub_def)

lemma fsub_not_below:
  assumes "is_double a" and "b \<le> 0"
  shows "a \<le> fsub a b"
  unfolding fsub_def using assms by (intro fl_not_below_double) (auto simp: is_double_def)

lemma fsub_negative:
  assumes "is_double a" and "is_double b" and "a < b"
  shows "fsub a b < 0"
  unfolding fsub_def using assms by (intro fl_sub_negative) (auto simp: is_double_def)


section \<open>Properties of the locator\<close>

lemma item_nat: "item xs (int k) = (if k < length xs then Inr (xs ! k) else Inl IndexError)"
  by (simp add: item_def)

lemma item_Suc: "item xs (int k + 1) = (if Suc k < length xs then Inr (xs ! Suc k) else Inl IndexError)"
  by (auto simp add: item_def Let_def nat_add_distrib)

lemma ebind_Inr [simp]: "ebind (Inr x) f = f x"
  by (simp add: ebind_def)

lemma ebind_Inl [simp]: "ebind (Inl e) f = Inl e"
  by (simp add: ebind_def)

lemma locate_scan_skip:
  assumes "\<forall>j\<in>set js. j < length rs \<and>
     (rs ! j \<le> fsub r0 d \<longrightarrow> Suc j < length rs \<and> rs ! Suc j \<le> fsub r0 d)"
  shows "locate_scan rs r0 d (js @ ks) = locate_scan rs r0 d ks"
  using assms by (induction js) (auto simp: item_nat item_Suc)

lemma locate_scan_hit:
  assumes "Suc i < length rs" "rs ! i \<le> fsub r0 d" "fsub r0 d < rs ! Suc i"
  shows "locate_scan rs r0 d (i # ks) =
     Inr (Some (if rs ! i = fsub r0 d then i
                else if fsub (fsub r0 d) (rs ! i) \<le> fsub (rs ! Suc i) (fsub r0 d) then i
                else i + 1))"
  using assms by (simp add: item_nat item_Suc)

lemma locate_first_pair:
  assumes "i < m" "Suc i < length rs" "rs ! i \<le> fsub r0 d" "fsub r0 d < rs ! Suc i"
    and "\<forall>j<i. \<not> (rs ! j \<le> fsub r0 d \<and> fsub r0 d < rs ! Suc j)"
  shows "locate rs r0 d m =
     Inr (Some (if rs ! i = fsub r0 d then i
                else if fsub (fsub r0 d) (rs ! i) \<le> fsub (rs ! Suc i) (fsub r0 d) then i
                else i + 1))"
proof -
  have split: "[0..<m] = [0..<i] @ i # [Suc i..<m]"
    using assms(1) upt_add_eq_append [of 0 i "m - i"] by (simp add: upt_conv_Cons)
  have "\<forall>j\<in>set [0..<i]. j < length rs \<and>
      (rs ! j \<le> fsub r0 d \<longrightarrow> Suc j < length rs \<and> rs ! Suc j \<le> fsub r0 d)"
    using assms(2,5) by (auto simp: not_less)
  then have "locate_scan rs r0 d ([0..<i] @ i # [Suc i..<m]) = locate_scan rs r0 d (i # [Suc i..<m])"
    by (rule locate_scan_skip)
  then show ?thesis
    unfolding locate_def split using locate_scan_hit [OF assms(2,3,4)] by simp
qed

lemma locate_scan_no_index_error:
  assumes "\<forall>j\<in>set js. j < length rs \<and> (rs ! j \<le> fsub r0 d \<longrightarrow> Suc j < length rs)"
  shows "locate_scan rs r0 d js \<noteq> Inl IndexError"
  using assms by (induction js) (auto simp: item_nat item_Suc)

lemma locate_scan_total:
  "\<exists>r. locate_scan rs r0 d js = Inr r \<or> locate_scan rs r0 d js = Inl IndexError"
  by (induction js) (auto simp: item_nat item_Suc)

lemma sorted_wrt_nth_less:
  "sorted_wrt (<) (rs::real list) \<Longrightarrow> i < j \<Longrightarrow> j < length rs \<Longrightarrow> rs ! i < rs ! j"
  by (simp add: sorted_wrt_iff_nth_less)

lemma sorted_wrt_nth_le:
  "sorted_wrt (<) (rs::real list) \<Longrightarrow> i \<le> j \<Longrightarrow> j < length rs \<Longrightarrow> rs ! i \<le> rs ! j"
  by (metis le_neq_implies_less less_eq_real_def sorted_wrt_nth_less order_refl)

lemma locate_none:
  assumes "\<forall>j<m. j < length rs \<and> fsub r0 d < rs ! j"
  shows "locate rs r0 d m = Inr None"
proof -
  have "locate_scan rs r0 d ([0..<m] @ []) = locate_scan rs r0 d []"
    by (rule locate_scan_skip) (use assms in auto)
  then show ?thesis by (simp add: locate_def)
qed

lemma locate_index_error:
  assumes "rs \<noteq> []" "\<forall>j<length rs. rs ! j \<le> fsub r0 d"
  shows "locate rs r0 d (length rs) = Inl IndexError"
proof -
  obtain n where n: "length rs = Suc n" using assms(1) by (cases rs) auto
  have "locate_scan rs r0 d ([0..<n] @ [n]) = locate_scan rs r0 d [n]"
    by (rule locate_scan_skip) (use assms(2) n in auto)
  moreover have "locate_scan rs r0 d [n] = Inl IndexError"
    using assms(2) n by (simp add: item_nat item_Suc)
  ultimately show ?thesis by (simp add: locate_def n)
qed

lemma locate_index_error_sorted:
  assumes "sorted_wrt (<) rs" and "rs \<noteq> []" and "last rs \<le> fsub (last rs) d"
  shows "locate rs (last rs) d (length rs) = Inl IndexError"
proof -
  have "\<forall>j<length rs. rs ! j \<le> fsub (last rs) d"
  proof (intro allI impI)
    fix j assume "j < length rs"
    then have "rs ! j \<le> rs ! (length rs - 1)"
      using assms(1) by (intro sorted_wrt_nth_le) auto
    then show "rs ! j \<le> fsub (last rs) d"
      using assms(2,3) by (simp add: last_conv_nth)
  qed
  then show ?thesis using assms(2) by (intro locate_index_error)
qed

lemma locate_target_below_surface:
  assumes "rs \<noteq> []" and "fsub (last rs) d < last rs"
  shows "\<exists>r. locate rs (last rs) d (length rs) = Inr r"
proof -
  have "\<forall>j\<in>set [0..<length rs]. j < length rs \<and>
      (rs ! j \<le> fsub (last rs) d \<longrightarrow> Suc j < length rs)"
  proof (intro ballI conjI impI)
    fix j assume j: "j \<in> set [0..<length rs]" and le: "rs ! j \<le> fsub (last rs) d"
    show "Suc j < length rs"
    proof (rule ccontr)
      assume "\<not> Suc j < length rs"
      then have "j = length rs - 1" using j by auto
      then show False using le assms by (simp add: last_conv_nth)
    qed
  qed auto
  then have "locate rs (last rs) d (length rs) \<noteq> Inl IndexError"
    unfolding locate_def by (rule locate_scan_no_index_error)
  then show ?thesis
    using locate_scan_total [of rs "last rs" d "[0..<length rs]"] by (auto simp: locate_def)
qed

lemmas fl_defs = fsub_def fadd_def fdiv_def

text \<open>
  Claim C1.  The target radius is the surface radius minus the thickness as the script
  computes it, \<open>fsub (last rs) d\<close>.  On a profile with strictly increasing radii and a
  bracketing pair \<open>(i, i+1)\<close> for this target, the scan returns \<open>i\<close> when \<open>rs ! i\<close> equals the
  target, \<open>i\<close> when the computed distance from \<open>rs ! i\<close> to the target is at most the computed
  distance from the target to \<open>rs ! (i+1)\<close>, and \<open>i + 1\<close> otherwise; no earlier pair brackets
  the target, so the pair taken is the first one; a target equal to some \<open>rs ! k\<close> gives \<open>k\<close>;
  and on the radii 0, 10, 20, 30 with thickness 15, hence target 15, the result is index 1.
  The scan is called as both loops of the script call it (\<open>deck_model_locate_call\<close> and
  \<open>tab_parse_locate_call\<close> below): the surface radius is the last radius and the range is
  the length of the profile.
\<close>

theorem locate_first_bracketing_pair:
  assumes "sorted_wrt (<) rs" and "Suc i < length rs"
    and "rs ! i \<le> fsub (last rs) d" and "fsub (last rs) d < rs ! Suc i"
  shows "locate rs (last rs) d (length rs) =
           Inr (Some (if rs ! i = fsub (last rs) d then i
                      else if fsub (fsub (last rs) d) (rs ! i)
                                \<le> fsub (rs ! Suc i) (fsub (last rs) d) then i
                      else i + 1))
       \<and> (\<forall>j<i. \<not> (rs ! j \<le> fsub (last rs) d \<and> fsub (last rs) d < rs ! Suc j))
       \<and> (\<forall>k<length rs. rs ! k = fsub (last rs) d \<longrightarrow>
             locate rs (last rs) d (length rs) = Inr (Some k))
       \<and> fsub 30 15 = 15
       \<and> locate [0, 10, 20, 30] 30 15 4 = Inr (Some 1)"
proof -
  let ?t = "fsub (last rs) d"
  have first: "\<forall>j<i. \<not> (rs ! j \<le> ?t \<and> ?t < rs ! Suc j)"
  proof (intro allI impI)
    fix j assume "j < i"
    then have "rs ! Suc j \<le> rs ! i"
      using assms(1,2) by (intro sorted_wrt_nth_le) auto
    then show "\<not> (rs ! j \<le> ?t \<and> ?t < rs ! Suc j)"
      using assms(3) by linarith
  qed
  have res: "locate rs (last rs) d (length rs) =
           Inr (Some (if rs ! i = ?t then i
                      else if fsub ?t (rs ! i) \<le> fsub (rs ! Suc i) ?t then i else i + 1))"
    using assms(2,3,4) first by (intro locate_first_pair) auto
  have round: "\<forall>k<length rs. rs ! k = ?t \<longrightarrow> locate rs (last rs) d (length rs) = Inr (Some k)"
  proof (intro allI impI)
    fix k assume k: "k < length rs" and eq: "rs ! k = ?t"
    have "\<not> k < i"
    proof
      assume "k < i"
      then have "rs ! k < rs ! i" using assms(1,2) by (intro sorted_wrt_nth_less) auto
      then show False using eq assms(3) by linarith
    qed
    moreover have "\<not> i < k"
    proof
      assume "i < k"
      then have "rs ! Suc i \<le> rs ! k" using assms(1) k by (intro sorted_wrt_nth_le) auto
      then show False using eq assms(4) by linarith
    qed
    ultimately have "k = i" by linarith
    then show "locate rs (last rs) d (length rs) = Inr (Some k)"
      using res eq by simp
  qed
  have t: "fsub 30 15 = 15" by (simp add: fl_defs)
  have ex: "locate [0, 10, 20, 30] 30 15 4 = Inr (Some 1)"
    by (simp add: locate_def item_def upt_rec fl_defs)
  show ?thesis using res first round t ex by blast
qed

theorem locate_first_bracketing_pair_witness:
  "sorted_wrt (<) [0, 10, 20, 30 :: real] \<and> Suc 1 < length [0, 10, 20, 30 :: real]
   \<and> [0, 10, 20, 30 :: real] ! 1 \<le> fsub (last [0, 10, 20, 30]) 15
   \<and> fsub (last [0, 10, 20, 30 :: real]) 15 < [0, 10, 20, 30] ! Suc 1
   \<and> locate [0, 10, 20, 30] (last [0, 10, 20, 30]) 15 (length [0, 10, 20, 30 :: real]) = Inr (Some 1)"
  using locate_first_bracketing_pair [of "[0, 10, 20, 30]" 1 15] by (simp add: fl_defs)

text \<open>
  A thickness just below 3/4 on the radii 0, 2, 5/2, 3: the computed target is exactly 9/4,
  the two computed distances are both 1/4, and the tie goes to index 1.
\<close>

lemma fl_quarter: "fl (1 / 4) = 1 / 4"
  using fl_dyadic [of "1 / 4" 1 "- 2"] by simp

lemma fl_near_nine_quarters: "fl (3 - (3 / 4 - 1 / 2 ^ 53)) = 9 / 4"
proof -
  have "fl (3 - (3 / 4 - 1 / 2 ^ 53)) =
      of_int (rne ((3 - (3 / 4 - 1 / 2 ^ 53)) / 2 powi max (1 - 52) (- 1074)))
      * 2 powi max (1 - 52) (- 1074)"
    by (rule fl_at) simp_all
  moreover have "rne ((3 - (3 / 4 - 1 / 2 ^ 53)) / 2 powi (- 51)) = 9 * 2 ^ 49"
    by (rule rne_near) simp
  ultimately show ?thesis by simp
qed

lemma locate_near_tie_in_doubles:
  "locate [0, 2, 5 / 2, 3] 3 (3 / 4 - 1 / 2 ^ 53) 4 = Inr (Some 1)"
proof -
  define d :: real where "d = 3 / 4 - 1 / 2 ^ 53"
  let ?rs = "[0, 2, 5 / 2, 3 :: real]"
  have t: "fsub 3 d = 9 / 4"
    unfolding d_def fsub_def by (rule fl_near_nine_quarters)
  have d1: "fsub (fsub 3 d) 2 = 1 / 4"
    unfolding t unfolding fsub_def using fl_quarter by simp
  have d2: "fsub (5 / 2) (fsub 3 d) = 1 / 4"
    unfolding t unfolding fsub_def using fl_quarter by simp
  have "locate ?rs 3 d 4 =
     Inr (Some (if ?rs ! 1 = fsub 3 d then 1
                else if fsub (fsub 3 d) (?rs ! 1) \<le> fsub (?rs ! Suc 1) (fsub 3 d) then 1
                else 1 + 1))"
    by (rule locate_first_pair) (simp_all add: t)
  then have "locate ?rs 3 d 4 = Inr (Some 1)"
    using d1 d2 by (simp add: t)
  then show ?thesis by (simp only: d_def)
qed

text \<open>
  Claim C10, as the code has it.  On a non-empty profile with strictly increasing radii: when
  the computed target \<open>fsub (last rs) d\<close> is strictly below the surface radius, the guard
  \<^verbatim>\<open>radius[i] <= r0_model - d_lith\<close> is false at the last index and the scan returns without
  reading beyond the last row; when the computed target is not below the surface radius, the
  guard holds at the last index and the read of \<^verbatim>\<open>radius[i+1]\<close> there raises
  \<^verbatim>\<open>IndexError\<close>.  A thickness of zero or less always gives the second case; a thickness
  above zero gives the first case when the subtraction is exact, and the second when the
  rounding of the subtraction absorbs it.
\<close>

theorem locate_index_error_iff_target_at_surface:
  assumes "sorted_wrt (<) rs" and "rs \<noteq> []"
  shows "(fsub (last rs) d < last rs \<longrightarrow>
            \<not> (rs ! (length rs - 1) \<le> fsub (last rs) d)
          \<and> (\<exists>r. locate rs (last rs) d (length rs) = Inr r))
       \<and> (last rs \<le> fsub (last rs) d \<longrightarrow>
            rs ! (length rs - 1) \<le> fsub (last rs) d
          \<and> locate rs (last rs) d (length rs) = Inl IndexError)
       \<and> (d \<le> 0 \<and> is_double (last rs) \<longrightarrow> last rs \<le> fsub (last rs) d)
       \<and> (0 < d \<and> fl (last rs - d) = last rs - d \<longrightarrow> fsub (last rs) d < last rs)"
proof (intro conjI impI)
  assume b: "fsub (last rs) d < last rs"
  show "\<not> (rs ! (length rs - 1) \<le> fsub (last rs) d)"
    using b assms(2) by (simp add: last_conv_nth)
  show "\<exists>r. locate rs (last rs) d (length rs) = Inr r"
    using assms(2) b by (rule locate_target_below_surface)
next
  assume a: "last rs \<le> fsub (last rs) d"
  show "rs ! (length rs - 1) \<le> fsub (last rs) d"
    using a assms(2) by (simp add: last_conv_nth)
  show "locate rs (last rs) d (length rs) = Inl IndexError"
    using assms a by (rule locate_index_error_sorted)
next
  assume "d \<le> 0 \<and> is_double (last rs)"
  then show "last rs \<le> fsub (last rs) d" by (intro fsub_not_below) auto
next
  assume "0 < d \<and> fl (last rs - d) = last rs - d"
  then show "fsub (last rs) d < last rs" by (intro fl_below_double_exact) auto
qed

theorem locate_index_error_iff_target_at_surface_witness:
  "sorted_wrt (<) [0, 10, 20, 30 :: real] \<and> [0, 10, 20, 30 :: real] \<noteq> []
   \<and> fsub (last [0, 10, 20, 30]) 15 < last [0, 10, 20, 30]
   \<and> (\<exists>r. locate [0, 10, 20, 30] (last [0, 10, 20, 30]) 15 (length [0, 10, 20, 30 :: real]) = Inr r)
   \<and> is_double (last [0, 10, 20, 30])
   \<and> last [0, 10, 20, 30] \<le> fsub (last [0, 10, 20, 30]) 0
   \<and> locate [0, 10, 20, 30] (last [0, 10, 20, 30]) 0 (length [0, 10, 20, 30 :: real]) = Inl IndexError"
  using locate_index_error_iff_target_at_surface [of "[0, 10, 20, 30]" 15]
    locate_index_error_iff_target_at_surface [of "[0, 10, 20, 30]" 0]
  by (simp add: fl_defs is_double_def)

text \<open>
  The claim as stated fails: the radii 0 and \<open>10 ^ 22\<close> are strictly increasing doubles and
  the thickness 150000 of the script is above zero, but the subtraction absorbs it, the
  guard holds at the last index and the scan raises \<^verbatim>\<open>IndexError\<close>.
\<close>

theorem positive_thickness_absorbed_counterexample:
  "sorted_wrt (<) [0, 10 ^ 22 :: real] \<and> is_double (10 ^ 22) \<and> is_double 150000
   \<and> (0 :: real) < 150000
   \<and> fsub (10 ^ 22) 150000 = 10 ^ 22
   \<and> locate [0, 10 ^ 22] (last [0, 10 ^ 22]) 150000 (length [0, 10 ^ 22 :: real]) = Inl IndexError"
  using fl_ten_22 fl_absorbs_150km
  by (simp add: fl_defs is_double_def locate_def item_def upt_rec)

section \<open>Properties of the deck parser\<close>

lemma fadd_commute: "fadd a b = fadd b a"
  by (simp add: fadd_def add.commute)

lemma deck_loop_append:
  "deck_loop lines cf kf (is @ js) v = ebind (deck_loop lines cf kf is v) (deck_loop lines cf kf js)"
  by (induction "is" arbitrary: v) (auto simp: ebind_def split: sum.splits)

lemma deck_entries_nth:
  assumes "deck_entries lines N = map Inr es" and "i < N"
  shows "read_entry lines (int i + 3) = Inr (es ! i)"
proof -
  have len: "length es = N"
    using assms(1) by (metis deck_entries_def diff_zero length_map length_upt)
  have "deck_entries lines N ! i = map Inr es ! i" using assms(1) by simp
  then show ?thesis using assms(2) len by (simp add: deck_entries_def)
qed

lemma deck_entries_length:
  "deck_entries lines N = map Inr es \<Longrightarrow> length es = N"
  by (metis deck_entries_def diff_zero length_map length_upt)

lemma spec_rows_Suc:
  "spec_rows es (Suc k) = spec_rows es k @ (if boundary_pair es k then [] else [spec_row es k])"
  by (simp add: spec_rows_def)

lemma spec_rows_length_le: "length (spec_rows es k) \<le> k"
  unfolding spec_rows_def by (metis diff_zero length_filter_le length_map length_upt)

lemma spec_marker_Suc:
  "spec_marker es (Suc k) m old =
     (if int k = m \<and> boundary_pair es k then Some (length (spec_rows es k))
      else spec_marker es k m old)"
  by (auto simp: spec_marker_def marker_pair_def less_Suc_eq)

lemma set_item_pad:
  assumes "0 < m"
  shows "set_item (xs @ replicate m (0::real)) (int (length xs)) a = Inr (xs @ a # replicate (m - 1) 0)"
proof -
  obtain m' where "m = Suc m'" using assms by (cases m) auto
  then show ?thesis by (simp add: set_item_def)
qed

lemma deck_body_pair:
  assumes "read_entry lines (int i + 3) = Inr (rb, rhob)"
    and "read_entry lines (int i + 4) = Inr (rt', rhot)"
  shows "deck_body lines cf kf i v =
     (if rb = rt' then
        Inr (v\<lparr>rt := Some rt',
               i_core := (if int i = cf then Some (num v) else i_core v),
               i_crust := (if int i = kf then Some (num v) else i_crust v)\<rparr>)
      else
        ebind (set_item (radius v) (int (num v)) rb) (\<lambda>radius'.
        ebind (set_item (rho v) (int (num v)) (fdiv (fadd rhot rhob) 2)) (\<lambda>rho'.
          Inr (v\<lparr>rt := Some rt', radius := radius', rho := rho', num := num v + 1\<rparr>))))"
  using assms by (simp add: deck_body_def Let_def)


lemma deck_loop_prefix:
  assumes ent: "deck_entries lines N = map Inr es"
    and v0: "radius v0 = replicate N 0" "rho v0 = replicate N 0" "num v0 = 0"
    and k: "Suc k \<le> N"
  shows "deck_loop lines cf kf [0..<k] v0 = Inr (loop_result es N cf kf k v0)"
  using k
proof (induction k)
  case 0
  show ?case using v0 by (simp add: loop_result_def spec_rows_def spec_marker_def marker_pair_def)
next
  case (Suc k)
  let ?v = "loop_result es N cf kf k v0"
  have ih: "deck_loop lines cf kf [0..<k] v0 = Inr ?v" using Suc by simp
  have eb: "read_entry lines (int k + 3) = Inr (fst (es ! k), snd (es ! k))"
    using deck_entries_nth [OF ent, of k] Suc.prems by simp
  have et: "read_entry lines (int k + 4) = Inr (fst (es ! Suc k), snd (es ! Suc k))"
    using deck_entries_nth [OF ent, of "Suc k"] Suc.prems by (simp add: add.commute)
  have room: "0 < N - length (spec_rows es k)"
    using spec_rows_length_le [of es k] Suc.prems by linarith
  have body: "deck_body lines cf kf k ?v = Inr (loop_result es N cf kf (Suc k) v0)"
  proof (cases "boundary_pair es k")
    case True
    then show ?thesis
      unfolding deck_body_pair [OF eb et]
      by (simp add: loop_result_def boundary_pair_def spec_rows_Suc spec_marker_Suc)
  next
    case False
    have r: "set_item (radius ?v) (int (num ?v)) (fst (es ! k)) =
        Inr (map fst (spec_rows es k) @ fst (es ! k) # replicate (N - length (spec_rows es k) - 1) 0)"
      using set_item_pad [OF room, of "map fst (spec_rows es k)"] by (simp add: loop_result_def)
    have d: "set_item (rho ?v) (int (num ?v)) (fdiv (fadd (snd (es ! Suc k)) (snd (es ! k))) 2) =
        Inr (map snd (spec_rows es k) @ fdiv (fadd (snd (es ! Suc k)) (snd (es ! k))) 2
               # replicate (N - length (spec_rows es k) - 1) 0)"
      using set_item_pad [OF room, of "map snd (spec_rows es k)"] by (simp add: loop_result_def)
    show ?thesis
      unfolding deck_body_pair [OF eb et] r d using False
      by (simp add: loop_result_def boundary_pair_def spec_rows_Suc spec_marker_Suc spec_row_def
            fadd_commute)
  qed
  show ?case
    using ih body by (simp add: deck_loop_append)
qed


lemma deck_parse_valid:
  assumes hdr: "deck_header lines = Inr (int N, crust_f, core_f)"
    and N: "2 \<le> N"
    and ent: "deck_entries lines N = map Inr es"
  shows "deck_parse lines st =
     Inr \<lparr>i_lith = i_lith st,
          i_crust = spec_marker es (N - 1) (crust_f - 1) (i_crust st),
          i_core = spec_marker es (N - 1) (core_f - 1) (i_core st),
          rt = Some (fst (es ! (N - 1))),
          calls = calls st, deck_out = deck_out st,
          radius = map fst (spec_rows es (N - 1)) @ [fst (es ! (N - 1))],
          rho = map snd (spec_rows es (N - 1)) @ [0],
          num = length (spec_rows es (N - 1)) + 1\<rparr>"
proof -
  let ?v0 = "deck_start st (replicate N 0) (replicate N 0)"
  let ?rows = "spec_rows es (N - 1)"
  have loop: "deck_loop lines (core_f - 1) (crust_f - 1) [0..<N - 1] ?v0
      = Inr (loop_result es N (core_f - 1) (crust_f - 1) (N - 1) ?v0)"
    using N by (intro deck_loop_prefix [OF ent]) (auto simp: deck_start_def)
  have room: "0 < N - length ?rows"
    using spec_rows_length_le [of es "N - 1"] N by linarith
  have r: "set_item (map fst ?rows @ replicate (N - length ?rows) 0) (int (length ?rows)) x
      = Inr (map fst ?rows @ x # replicate (N - length ?rows - 1) 0)" for x
    using set_item_pad [OF room, of "map fst ?rows"] by simp
  have d: "set_item (map snd ?rows @ replicate (N - length ?rows) 0) (int (length ?rows)) x
      = Inr (map snd ?rows @ x # replicate (N - length ?rows - 1) 0)" for x
    using set_item_pad [OF room, of "map snd ?rows"] by simp
  have nz: "N - 1 \<noteq> 0" using N by simp
  show ?thesis
    unfolding deck_parse_def hdr
    using nz loop r d by (simp add: np_zeros_def nat_diff_distrib loop_result_def var_def Let_def deck_start_def)
qed


lemma pad_update:
  "0 < m \<Longrightarrow> (xs @ replicate m (0::real))[length xs := a] = xs @ a # replicate (m - 1) 0"
  by (cases m) auto

lemma spec_rows_increasing:
  assumes "sorted (map fst es)" and "Suc k \<le> length es"
  shows "sorted_wrt (<) (map fst (spec_rows es k) @ [fst (es ! k)])"
proof -
  have mono: "fst (es ! a) \<le> fst (es ! b)" if "a \<le> b" "b < length es" for a b
    using sorted_nth_mono [OF assms(1), of a b] that by simp
  have up: "fst (es ! i) < fst (es ! j)" if "i < j" "j \<le> k" "\<not> boundary_pair es i" for i j
  proof -
    have "fst (es ! i) \<le> fst (es ! Suc i)" using that assms(2) by (intro mono) auto
    moreover have "fst (es ! Suc i) \<le> fst (es ! j)" using that assms(2) by (intro mono) auto
    ultimately show ?thesis using that(3) by (simp add: boundary_pair_def)
  qed
  have "sorted_wrt (<) (filter (\<lambda>i. \<not> boundary_pair es i) [0..<k])"
    by (intro sorted_wrt_filter) (simp add: sorted_wrt_upt)
  then have "sorted_wrt (\<lambda>i j. fst (es ! i) < fst (es ! j)) (filter (\<lambda>i. \<not> boundary_pair es i) [0..<k])"
    by (rule sorted_wrt_mono_rel [rotated]) (use up in auto)
  then have "sorted_wrt (<) (map fst (spec_rows es k))"
    by (simp add: spec_rows_def sorted_wrt_map spec_row_def comp_def)
  moreover have "\<forall>x\<in>set (map fst (spec_rows es k)). x < fst (es ! k)"
    using up by (auto simp: spec_rows_def spec_row_def)
  ultimately show ?thesis by (simp add: sorted_wrt_append)
qed

text \<open>
  Claim C2.  For a deck whose header reads as \<open>N \<ge> 2\<close> declared entries with the core and
  crust numbers \<open>core_f\<close>, \<open>crust_f\<close>, and whose first \<open>N\<close> entries \<open>es\<close> all read as two
  numbers, with finite radii, the parser runs the loop with the markers \<open>core_f - 1\<close> and \<open>crust_f - 1\<close>, and the
  loop handles every pair \<open>(i, i+1)\<close> with \<open>i < N - 1\<close> as follows, where \<open>v\<close> are the variables before
  the pair and \<open>v'\<close> after it: when the two radii are equal, the arrays and the output index are
  unchanged, and the output index is recorded as \<^verbatim>\<open>i_core\<close> if \<open>i\<close> is the declared core number
  minus one and as \<^verbatim>\<open>i_crust\<close> if \<open>i\<close> is the declared crust number minus one; when they differ,
  one row is stored at the output index, with the bottom radius and the mean of the two
  densities, and the output index advances by one.  The parsed profile is the list of these
  rows followed by the surface row, the parsed \<^verbatim>\<open>i_core\<close> and \<^verbatim>\<open>i_crust\<close> are the indices
  recorded at the declared numbers, and a deck of three entries forming one boundary pair and
  one layer pair gives a profile of two rows whose last density is 0.
\<close>

theorem deck_loop_walks_entry_pairs:
  assumes hdr: "deck_header lines = Inr (int N, crust_f, core_f)"
    and N: "2 \<le> N"
    and ent: "deck_entries lines N = map Inr es"
    and fin: "finite_radii es"
  shows "(\<forall>i<N - 1. \<exists>v v'.
            deck_loop lines (core_f - 1) (crust_f - 1) [0..<i]
              (deck_start st (replicate N 0) (replicate N 0)) = Inr v
          \<and> deck_loop lines (core_f - 1) (crust_f - 1) [0..<Suc i]
              (deck_start st (replicate N 0) (replicate N 0)) = Inr v'
          \<and> (if fst (es ! i) = fst (es ! Suc i)
             then radius v' = radius v \<and> rho v' = rho v \<and> num v' = num v
                \<and> i_core v' = (if int i = core_f - 1 then Some (num v) else i_core v)
                \<and> i_crust v' = (if int i = crust_f - 1 then Some (num v) else i_crust v)
             else num v < length (radius v) \<and> num v < length (rho v)
                \<and> radius v' = (radius v)[num v := fst (es ! i)]
                \<and> rho v' = (rho v)[num v := fdiv (fadd (snd (es ! i)) (snd (es ! Suc i))) 2]
                \<and> num v' = num v + 1
                \<and> i_core v' = i_core v \<and> i_crust v' = i_crust v))
       \<and> (\<exists>w v. deck_loop lines (core_f - 1) (crust_f - 1) [0..<N - 1]
              (deck_start st (replicate N 0) (replicate N 0)) = Inr w
              \<and> deck_parse lines st = Inr v
              \<and> radius v = take (num w) (radius w) @ [fst (es ! (N - 1))]
              \<and> rho v = take (num w) (rho w) @ [0]
              \<and> num v = num w + 1
              \<and> i_core v = i_core w \<and> i_crust v = i_crust w
              \<and> radius v = map fst (spec_rows es (N - 1)) @ [fst (es ! (N - 1))]
              \<and> rho v = map snd (spec_rows es (N - 1)) @ [0]
              \<and> i_core v = spec_marker es (N - 1) (core_f - 1) (i_core st)
              \<and> i_crust v = spec_marker es (N - 1) (crust_f - 1) (i_crust st))
       \<and> (N = 3 \<and> fst (es ! 0) = fst (es ! 1) \<and> fst (es ! 1) \<noteq> fst (es ! 2) \<longrightarrow>
            (\<exists>v. deck_parse lines st = Inr v
               \<and> radius v = [fst (es ! 1), fst (es ! 2)]
               \<and> rho v = [fdiv (fadd (snd (es ! 1)) (snd (es ! 2))) 2, 0]
               \<and> i_core v = (if core_f = 1 then Some 0 else i_core st)
               \<and> i_crust v = (if crust_f = 1 then Some 0 else i_crust st)))"
proof (intro conjI allI impI)
  fix i assume i: "i < N - 1"
  let ?start = "deck_start st (replicate N 0) (replicate N 0)"
  let ?before = "loop_result es N (core_f - 1) (crust_f - 1) i ?start"
  let ?after = "loop_result es N (core_f - 1) (crust_f - 1) (Suc i) ?start"
  have a: "deck_loop lines (core_f - 1) (crust_f - 1) [0..<i] ?start = Inr ?before"
    using i by (intro deck_loop_prefix [OF ent]) (auto simp: deck_start_def)
  have b: "deck_loop lines (core_f - 1) (crust_f - 1) [0..<Suc i] ?start = Inr ?after"
    using i by (intro deck_loop_prefix [OF ent]) (auto simp: deck_start_def)
  have room: "0 < N - length (spec_rows es i)"
    using spec_rows_length_le [of es i] i by linarith
  have c: "if fst (es ! i) = fst (es ! Suc i)
             then radius ?after = radius ?before \<and> rho ?after = rho ?before \<and> num ?after = num ?before
                \<and> i_core ?after = (if int i = core_f - 1 then Some (num ?before) else i_core ?before)
                \<and> i_crust ?after = (if int i = crust_f - 1 then Some (num ?before) else i_crust ?before)
             else num ?before < length (radius ?before) \<and> num ?before < length (rho ?before)
                \<and> radius ?after = (radius ?before)[num ?before := fst (es ! i)]
                \<and> rho ?after = (rho ?before)[num ?before := fdiv (fadd (snd (es ! i)) (snd (es ! Suc i))) 2]
                \<and> num ?after = num ?before + 1
                \<and> i_core ?after = i_core ?before \<and> i_crust ?after = i_crust ?before"
    using room pad_update [OF room, of "map fst (spec_rows es i)"]
      pad_update [OF room, of "map snd (spec_rows es i)"]
    by (simp add: loop_result_def spec_rows_Suc spec_marker_Suc boundary_pair_def spec_row_def)
  show "\<exists>v v'.
            deck_loop lines (core_f - 1) (crust_f - 1) [0..<i] ?start = Inr v
          \<and> deck_loop lines (core_f - 1) (crust_f - 1) [0..<Suc i] ?start = Inr v'
          \<and> (if fst (es ! i) = fst (es ! Suc i)
             then radius v' = radius v \<and> rho v' = rho v \<and> num v' = num v
                \<and> i_core v' = (if int i = core_f - 1 then Some (num v) else i_core v)
                \<and> i_crust v' = (if int i = crust_f - 1 then Some (num v) else i_crust v)
             else num v < length (radius v) \<and> num v < length (rho v)
                \<and> radius v' = (radius v)[num v := fst (es ! i)]
                \<and> rho v' = (rho v)[num v := fdiv (fadd (snd (es ! i)) (snd (es ! Suc i))) 2]
                \<and> num v' = num v + 1
                \<and> i_core v' = i_core v \<and> i_crust v' = i_crust v)"
    using a b c by blast
next
  let ?start = "deck_start st (replicate N 0) (replicate N 0)"
  let ?w = "loop_result es N (core_f - 1) (crust_f - 1) (N - 1) ?start"
  have l: "deck_loop lines (core_f - 1) (crust_f - 1) [0..<N - 1] ?start = Inr ?w"
    using N by (intro deck_loop_prefix [OF ent]) (auto simp: deck_start_def)
  let ?v = "\<lparr>i_lith = i_lith st,
          i_crust = spec_marker es (N - 1) (crust_f - 1) (i_crust st),
          i_core = spec_marker es (N - 1) (core_f - 1) (i_core st),
          rt = Some (fst (es ! (N - 1))),
          calls = calls st, deck_out = deck_out st,
          radius = map fst (spec_rows es (N - 1)) @ [fst (es ! (N - 1))],
          rho = map snd (spec_rows es (N - 1)) @ [0],
          num = length (spec_rows es (N - 1)) + 1\<rparr>"
  have p: "deck_parse lines st = Inr ?v" by (rule deck_parse_valid [OF hdr N ent])
  have w: "radius ?v = take (num ?w) (radius ?w) @ [fst (es ! (N - 1))]"
      "rho ?v = take (num ?w) (rho ?w) @ [0]"
      "num ?v = num ?w + 1"
      "i_core ?v = i_core ?w" "i_crust ?v = i_crust ?w"
    by (simp_all add: loop_result_def deck_start_def)
  have v: "radius ?v = map fst (spec_rows es (N - 1)) @ [fst (es ! (N - 1))]"
      "rho ?v = map snd (spec_rows es (N - 1)) @ [0]"
      "i_core ?v = spec_marker es (N - 1) (core_f - 1) (i_core st)"
      "i_crust ?v = spec_marker es (N - 1) (crust_f - 1) (i_crust st)"
    by simp_all
  show "\<exists>w v. deck_loop lines (core_f - 1) (crust_f - 1) [0..<N - 1] ?start = Inr w
              \<and> deck_parse lines st = Inr v
              \<and> radius v = take (num w) (radius w) @ [fst (es ! (N - 1))]
              \<and> rho v = take (num w) (rho w) @ [0]
              \<and> num v = num w + 1
              \<and> i_core v = i_core w \<and> i_crust v = i_crust w
              \<and> radius v = map fst (spec_rows es (N - 1)) @ [fst (es ! (N - 1))]
              \<and> rho v = map snd (spec_rows es (N - 1)) @ [0]
              \<and> i_core v = spec_marker es (N - 1) (core_f - 1) (i_core st)
              \<and> i_crust v = spec_marker es (N - 1) (crust_f - 1) (i_crust st)"
    using l p w v by (intro exI [of _ ?w] exI [of _ ?v] conjI)
next
  assume m: "N = 3 \<and> fst (es ! 0) = fst (es ! 1) \<and> fst (es ! 1) \<noteq> fst (es ! 2)"
  have "[0..<2] = [0, Suc 0]" by (simp add: upt_rec)
  then have rows: "spec_rows es 2 = [spec_row es 1]"
    using m by (simp add: spec_rows_def boundary_pair_def numeral_2_eq_2)
  have mk: "spec_marker es 2 (k - 1) old = (if k = 1 then Some 0 else old)" for k old
    using m by (auto simp: spec_marker_def marker_pair_def boundary_pair_def spec_rows_def
        numeral_2_eq_2 less_Suc_eq nat_eq_iff)
  show "\<exists>v. deck_parse lines st = Inr v
               \<and> radius v = [fst (es ! 1), fst (es ! 2)]
               \<and> rho v = [fdiv (fadd (snd (es ! 1)) (snd (es ! 2))) 2, 0]
               \<and> i_core v = (if core_f = 1 then Some 0 else i_core st)
               \<and> i_crust v = (if crust_f = 1 then Some 0 else i_crust st)"
    unfolding deck_parse_valid [OF hdr N ent] using m rows mk
    by (simp add: spec_row_def numeral_2_eq_2)
qed

theorem deck_loop_walks_entry_pairs_witness:
  "deck_header [[Word ''title''], [IntLit 0, IntLit 0, IntLit 1],
                [IntLit 5, IntLit 0, IntLit 1, IntLit 3],
                [FloatLit 1000, FloatLit 8000], [FloatLit 1000, FloatLit 4000],
                [FloatLit 2000, FloatLit 3000], [FloatLit 2000, FloatLit 2900],
                [FloatLit 3000, FloatLit 2800]] = Inr (int 5, 3, 1)
   \<and> (2::nat) \<le> 5
   \<and> deck_entries [[Word ''title''], [IntLit 0, IntLit 0, IntLit 1],
                [IntLit 5, IntLit 0, IntLit 1, IntLit 3],
                [FloatLit 1000, FloatLit 8000], [FloatLit 1000, FloatLit 4000],
                [FloatLit 2000, FloatLit 3000], [FloatLit 2000, FloatLit 2900],
                [FloatLit 3000, FloatLit 2800]] 5
       = map Inr [(1000, 8000), (1000, 4000), (2000, 3000), (2000, 2900), (3000, 2800)]
   \<and> finite_radii [(1000, 8000), (1000, 4000), (2000, 3000), (2000, 2900), (3000, 2800)]
   \<and> (\<exists>v. deck_parse [[Word ''title''], [IntLit 0, IntLit 0, IntLit 1],
                [IntLit 5, IntLit 0, IntLit 1, IntLit 3],
                [FloatLit 1000, FloatLit 8000], [FloatLit 1000, FloatLit 4000],
                [FloatLit 2000, FloatLit 3000], [FloatLit 2000, FloatLit 2900],
                [FloatLit 3000, FloatLit 2800]] init_vars = Inr v
          \<and> radius v = [1000, 2000, 3000] \<and> rho v = [3500, 2850, 0]
          \<and> i_core v = Some 0 \<and> i_crust v = Some 1)
   \<and> deck_header [[Word ''title''], [IntLit 0, IntLit 0, IntLit 1],
                [IntLit 3, IntLit 0, IntLit 1, IntLit 1],
                [FloatLit 1000, FloatLit 8000], [FloatLit 1000, FloatLit 4000],
                [FloatLit 2000, FloatLit 3000]] = Inr (int 3, 1, 1)
   \<and> (2::nat) \<le> 3
   \<and> deck_entries [[Word ''title''], [IntLit 0, IntLit 0, IntLit 1],
                [IntLit 3, IntLit 0, IntLit 1, IntLit 1],
                [FloatLit 1000, FloatLit 8000], [FloatLit 1000, FloatLit 4000],
                [FloatLit 2000, FloatLit 3000]] 3
       = map Inr [(1000, 8000), (1000, 4000), (2000, 3000)]
   \<and> finite_radii [(1000, 8000), (1000, 4000), (2000, 3000)]
   \<and> (\<exists>v. deck_parse [[Word ''title''], [IntLit 0, IntLit 0, IntLit 1],
                [IntLit 3, IntLit 0, IntLit 1, IntLit 1],
                [FloatLit 1000, FloatLit 8000], [FloatLit 1000, FloatLit 4000],
                [FloatLit 2000, FloatLit 3000]] init_vars = Inr v
          \<and> radius v = [1000, 2000] \<and> rho v = [3500, 0]
          \<and> i_core v = Some 0 \<and> i_crust v = Some 0)"
proof -
  let ?D = "[[Word ''title''], [IntLit 0, IntLit 0, IntLit 1],
             [IntLit 5, IntLit 0, IntLit 1, IntLit 3],
             [FloatLit 1000, FloatLit 8000], [FloatLit 1000, FloatLit 4000],
             [FloatLit 2000, FloatLit 3000], [FloatLit 2000, FloatLit 2900],
             [FloatLit 3000, FloatLit 2800]]"
  let ?E = "[(1000 :: real, 8000 :: real), (1000, 4000), (2000, 3000), (2000, 2900), (3000, 2800)]"
  let ?M = "[[Word ''title''], [IntLit 0, IntLit 0, IntLit 1],
             [IntLit 3, IntLit 0, IntLit 1, IntLit 1],
             [FloatLit 1000, FloatLit 8000], [FloatLit 1000, FloatLit 4000],
             [FloatLit 2000, FloatLit 3000]]"
  let ?F = "[(1000 :: real, 8000 :: real), (1000, 4000), (2000, 3000)]"
  have h: "deck_header ?D = Inr (int 5, 3, 1)"
    by (simp add: deck_header_def item_def)
  have e: "deck_entries ?D 5 = map Inr ?E"
    by (simp add: deck_entries_def read_entry_def item_def upt_rec)
  have n: "(2::nat) \<le> 5" by simp
  have h3: "deck_header ?M = Inr (int 3, 1, 1)"
    by (simp add: deck_header_def item_def)
  have e3: "deck_entries ?M 3 = map Inr ?F"
    by (simp add: deck_entries_def read_entry_def item_def upt_rec)
  have n3: "(2::nat) \<le> 3" by simp
  have f: "finite_radii ?E" by (simp add: finite_radii_def)
  have f3: "finite_radii ?F" by (simp add: finite_radii_def)
  have rows: "spec_rows ?E (5 - 1) = [(1000, 3500), (2000, 2850)]"
    by (simp add: spec_rows_def upt_rec boundary_pair_def spec_row_def fl_defs)
  have mk: "spec_marker ?E (5 - 1) (1 - 1) None = Some 0" "spec_marker ?E (5 - 1) (3 - 1) None = Some 1"
    by (simp_all add: spec_marker_def marker_pair_def spec_rows_def upt_rec boundary_pair_def)
  have "\<exists>v. deck_parse ?D init_vars = Inr v
          \<and> radius v = [1000, 2000, 3000] \<and> rho v = [3500, 2850, 0]
          \<and> i_core v = Some 0 \<and> i_crust v = Some 1"
    using deck_loop_walks_entry_pairs [OF h n e f, of init_vars] rows mk
    by (auto simp: init_vars_def)
  moreover have "\<exists>v. deck_parse ?M init_vars = Inr v
          \<and> radius v = [1000, 2000] \<and> rho v = [3500, 0]
          \<and> i_core v = Some 0 \<and> i_crust v = Some 0"
    using deck_loop_walks_entry_pairs [OF h3 n3 e3 f3, of init_vars]
    by (simp add: fl_defs)
  ultimately show ?thesis using h e h3 e3 f f3 by simp
qed

section \<open>Properties of the tabulated parser\<close>

lemma read_entry_parts:
  "read_entry lines k = Inr (r, d) \<Longrightarrow>
     \<exists>data f0 f1. item lines k = Inr data \<and> item data 0 = Inr f0 \<and> py_float f0 = Inr r
        \<and> item data 1 = Inr f1 \<and> py_float f1 = Inr d"
  by (auto simp: read_entry_def ebind_def split: sum.splits)

lemma tab_fill_append:
  "tab_fill lines (is @ js) p = ebind (tab_fill lines is p) (tab_fill lines js)"
proof (induction "is" arbitrary: p)
  case Nil
  show ?case by (cases p) simp
next
  case (Cons i "is")
  show ?case by (cases p) (auto simp: Cons ebind_def split: sum.splits)
qed

lemma table_rows_length: "table_rows lines = map Inr rows \<Longrightarrow> length rows = length lines - 4"
  by (metis table_rows_def diff_zero length_map length_upt)

lemma table_rows_nth:
  assumes "table_rows lines = map Inr rows" and "i < length rows"
  shows "read_entry lines (int i + 4) = Inr (rows ! i)"
proof -
  have "table_rows lines ! i = map Inr rows ! i" using assms(1) by simp
  then show ?thesis
    using assms(2) table_rows_length [OF assms(1)] by (simp add: table_rows_def)
qed

lemma tab_fill_prefix:
  assumes rows: "table_rows lines = map Inr rows" and k: "k \<le> length rows"
  shows "tab_fill lines [0..<k] (replicate (length rows) 0, replicate (length rows) 0) =
     Inr (map fst (take k rows) @ replicate (length rows - k) 0,
          map snd (take k rows) @ replicate (length rows - k) 0)"
  using k
proof (induction k)
  case 0
  show ?case by simp
next
  case (Suc k)
  have k: "k < length rows" using Suc.prems by simp
  obtain data f0 f1 where p: "item lines (int k + 4) = Inr data" "item data 0 = Inr f0"
      "py_float f0 = Inr (fst (rows ! k))" "item data 1 = Inr f1" "py_float f1 = Inr (snd (rows ! k))"
    using read_entry_parts [of lines "int k + 4" "fst (rows ! k)" "snd (rows ! k)"]
      table_rows_nth [OF rows k] by auto
  have room: "0 < length rows - k" using k by simp
  have r: "set_item (map fst (take k rows) @ replicate (length rows - k) 0) (int k) x
      = Inr (map fst (take k rows) @ x # replicate (length rows - k - 1) 0)" for x
    using set_item_pad [OF room, of "map fst (take k rows)"] k by simp
  have d: "set_item (map snd (take k rows) @ replicate (length rows - k) 0) (int k) x
      = Inr (map snd (take k rows) @ x # replicate (length rows - k - 1) 0)" for x
    using set_item_pad [OF room, of "map snd (take k rows)"] k by simp
  have "tab_fill lines [0..<Suc k] (replicate (length rows) 0, replicate (length rows) 0)
      = tab_fill lines [k] (map fst (take k rows) @ replicate (length rows - k) 0,
          map snd (take k rows) @ replicate (length rows - k) 0)"
    using Suc k by (simp add: tab_fill_append)
  also have "\<dots> = Inr (map fst (take (Suc k) rows) @ replicate (length rows - Suc k) 0,
          map snd (take (Suc k) rows) @ replicate (length rows - Suc k) 0)"
    using k by (simp add: p r d take_Suc_conv_app_nth)
  finally show ?case .
qed

lemma tab_parse_rows:
  assumes rows: "table_rows lines = map Inr rows" and ne: "rows \<noteq> []"
  shows "tab_parse d lines l0 =
     ebind (locate (map fst rows) (fst (last rows)) d (length rows)) (\<lambda>found.
       Inr (map fst rows, (map snd rows)[length rows - 1 := 0], fst (last rows),
            (case found of None \<Rightarrow> l0 | Some k \<Rightarrow> Some k)))"
proof -
  have len: "length rows = length lines - 4" by (rule table_rows_length [OF rows])
  have pos: "0 < length rows" using ne by simp
  have num: "int (length lines) - 4 = int (length rows)" using len pos by linarith
  have fill: "tab_fill lines [0..<length rows] (replicate (length rows) 0, replicate (length rows) 0)
      = Inr (map fst rows, map snd rows)"
    using tab_fill_prefix [OF rows, of "length rows"] by simp
  have idx: "nat (int (length rows) - 1) = length rows - 1" by linarith
  have r0: "item (map fst rows) (int (length rows) - 1) = Inr (fst (last rows))"
    using pos ne by (simp add: item_def last_conv_nth idx)
  have st: "set_item (map snd rows) (int (length rows) - 1) 0 = Inr ((map snd rows)[length rows - 1 := 0])"
    using pos by (simp add: set_item_def idx)
  show ?thesis
    unfolding tab_parse_def num
    by (simp add: np_zeros_def fill r0 st Let_def)
qed

lemma tab_parse_valid:
  assumes rows: "table_rows lines = map Inr rows" and ne: "rows \<noteq> []"
    and found: "locate (map fst rows) (fst (last rows)) d (length rows) = Inr found"
  shows "tab_parse d lines l0 =
     Inr (map fst rows, (map snd rows)[length rows - 1 := 0], fst (last rows),
          (case found of None \<Rightarrow> l0 | Some k \<Rightarrow> Some k))"
  by (simp add: tab_parse_rows [OF rows ne] found)

text \<open>
  Claim C3.  A valid deck (a header with \<open>N \<ge> 2\<close> declared entries, \<open>N\<close> readable entries,
  finite radii that never decrease) parses to a profile with strictly increasing radii whose last
  row, at index \<open>n = num - 1\<close>, has the radius of the last entry and density 0.  For a valid
  table (at least one row, all rows readable, finite and strictly increasing radii), every profile the
  tabulated path returns is the list of its rows with the density of the last row overwritten
  by 0; the path returns when the computed target is below the surface radius, and when it
  is not, the locator, which runs before the overwrite, raises \<^verbatim>\<open>IndexError\<close>.
\<close>

theorem parsed_profile_increasing_zero_surface:
  "(deck_header lines = Inr (int N, crust_f, core_f) \<and> 2 \<le> N
      \<and> deck_entries lines N = map Inr es \<and> finite_radii es \<and> sorted (map fst es) \<longrightarrow>
      (\<exists>v. deck_parse lines st = Inr v \<and> sorted_wrt (<) (radius v) \<and> last (rho v) = 0
          \<and> length (radius v) = num v \<and> length (rho v) = num v
          \<and> item (radius v) (int (num v) - 1) = Inr (fst (es ! (N - 1)))
          \<and> item (rho v) (int (num v) - 1) = Inr 0))
   \<and> (table_rows tlines = map Inr rows \<and> rows \<noteq> [] \<and> finite_radii rows
        \<and> sorted_wrt (<) (map fst rows) \<longrightarrow>
        (\<forall>rs ds r0 lith. tab_parse d tlines l0 = Inr (rs, ds, r0, lith) \<longrightarrow>
            rs = map fst rows \<and> ds = (map snd rows)[length rows - 1 := 0]
          \<and> r0 = last rs \<and> sorted_wrt (<) rs \<and> last ds = 0 \<and> length ds = length rs)
      \<and> (fsub (fst (last rows)) d < fst (last rows) \<longrightarrow>
            (\<exists>lith. tab_parse d tlines l0 =
               Inr (map fst rows, (map snd rows)[length rows - 1 := 0], fst (last rows), lith)))
      \<and> (fst (last rows) \<le> fsub (fst (last rows)) d \<longrightarrow>
            tab_parse d tlines l0 = Inl IndexError))"
proof -
  have deck: "\<exists>v. deck_parse lines st = Inr v \<and> sorted_wrt (<) (radius v) \<and> last (rho v) = 0
          \<and> length (radius v) = num v \<and> length (rho v) = num v
          \<and> item (radius v) (int (num v) - 1) = Inr (fst (es ! (N - 1)))
          \<and> item (rho v) (int (num v) - 1) = Inr 0"
    if a: "deck_header lines = Inr (int N, crust_f, core_f) \<and> 2 \<le> N
      \<and> deck_entries lines N = map Inr es \<and> finite_radii es \<and> sorted (map fst es)"
  proof -
    have hdr: "deck_header lines = Inr (int N, crust_f, core_f)" and N: "2 \<le> N"
      and ent: "deck_entries lines N = map Inr es" and srt: "sorted (map fst es)"
      using a by simp_all
    have len: "length es = N" by (rule deck_entries_length [OF ent])
    have inc: "sorted_wrt (<) (map fst (spec_rows es (N - 1)) @ [fst (es ! (N - 1))])"
      using N len by (intro spec_rows_increasing [OF srt]) simp
    show ?thesis
      unfolding deck_parse_valid [OF hdr N ent] using inc
      by (simp add: item_def nth_append)
  qed
  have tab: "(\<forall>rs ds r0 lith. tab_parse d tlines l0 = Inr (rs, ds, r0, lith) \<longrightarrow>
            rs = map fst rows \<and> ds = (map snd rows)[length rows - 1 := 0]
          \<and> r0 = last rs \<and> sorted_wrt (<) rs \<and> last ds = 0 \<and> length ds = length rs)
      \<and> (fsub (fst (last rows)) d < fst (last rows) \<longrightarrow>
            (\<exists>lith. tab_parse d tlines l0 =
               Inr (map fst rows, (map snd rows)[length rows - 1 := 0], fst (last rows), lith)))
      \<and> (fst (last rows) \<le> fsub (fst (last rows)) d \<longrightarrow>
            tab_parse d tlines l0 = Inl IndexError)"
    if a: "table_rows tlines = map Inr rows \<and> rows \<noteq> [] \<and> finite_radii rows
        \<and> sorted_wrt (<) (map fst rows)"
  proof -
    have rows: "table_rows tlines = map Inr rows" and ne: "rows \<noteq> []"
      and srt: "sorted_wrt (<) (map fst rows)"
      using a by simp_all
    have lst: "last (map fst rows) = fst (last rows)" using ne by (simp add: last_map)
    have z: "last ((map snd rows)[length rows - 1 := 0]) = 0"
      using ne by (simp add: last_conv_nth)
    have ret: "rs = map fst rows \<and> ds = (map snd rows)[length rows - 1 := 0]
          \<and> r0 = last rs \<and> sorted_wrt (<) rs \<and> last ds = 0 \<and> length ds = length rs"
      if p: "tab_parse d tlines l0 = Inr (rs, ds, r0, lith)" for rs ds r0 lith
    proof -
      have "rs = map fst rows \<and> ds = (map snd rows)[length rows - 1 := 0] \<and> r0 = fst (last rows)"
        using p unfolding tab_parse_rows [OF rows ne] by (auto simp: ebind_def split: sum.splits)
      then show ?thesis using srt z lst by simp
    qed
    have below: "\<exists>lith. tab_parse d tlines l0 =
               Inr (map fst rows, (map snd rows)[length rows - 1 := 0], fst (last rows), lith)"
      if b: "fsub (fst (last rows)) d < fst (last rows)"
    proof -
      obtain found where f: "locate (map fst rows) (fst (last rows)) d (length rows) = Inr found"
        using locate_target_below_surface [of "map fst rows" d] ne b lst by auto
      show ?thesis unfolding tab_parse_valid [OF rows ne f, of l0] by simp
    qed
    have above: "tab_parse d tlines l0 = Inl IndexError"
      if b: "fst (last rows) \<le> fsub (fst (last rows)) d"
    proof -
      have "locate (map fst rows) (last (map fst rows)) d (length (map fst rows)) = Inl IndexError"
        using srt ne b lst by (intro locate_index_error_sorted) auto
      then show ?thesis unfolding tab_parse_rows [OF rows ne] using lst by simp
    qed
    show ?thesis using ret below above by blast
  qed
  show ?thesis using deck tab by blast
qed

theorem parsed_profile_increasing_zero_surface_witness:
  "deck_header [[Word ''title''], [IntLit 0, IntLit 0, IntLit 1],
                [IntLit 3, IntLit 0, IntLit 1, IntLit 1],
                [FloatLit 1000, FloatLit 8000], [FloatLit 1000, FloatLit 4000],
                [FloatLit 2000, FloatLit 3000]] = Inr (int 3, 1, 1)
   \<and> (2::nat) \<le> 3
   \<and> deck_entries [[Word ''title''], [IntLit 0, IntLit 0, IntLit 1],
                [IntLit 3, IntLit 0, IntLit 1, IntLit 1],
                [FloatLit 1000, FloatLit 8000], [FloatLit 1000, FloatLit 4000],
                [FloatLit 2000, FloatLit 3000]] 3
       = map Inr [(1000, 8000), (1000, 4000), (2000, 3000)]
   \<and> finite_radii [(1000, 8000), (1000, 4000), (2000, 3000)]
   \<and> sorted (map fst [(1000 :: real, 8000 :: real), (1000, 4000), (2000, 3000)])
   \<and> (\<exists>v. deck_parse [[Word ''title''], [IntLit 0, IntLit 0, IntLit 1],
                [IntLit 3, IntLit 0, IntLit 1, IntLit 1],
                [FloatLit 1000, FloatLit 8000], [FloatLit 1000, FloatLit 4000],
                [FloatLit 2000, FloatLit 3000]] init_vars = Inr v
          \<and> sorted_wrt (<) (radius v) \<and> last (rho v) = 0)
   \<and> table_rows [[], [], [], [], [IntLit 0, IntLit 8000], [IntLit 1000, IntLit 4000],
                 [IntLit 2000, IntLit 3000]]
       = map Inr [(0, 8000), (1000, 4000), (2000, 3000)]
   \<and> [(0 :: real, 8000 :: real), (1000, 4000), (2000, 3000)] \<noteq> []
   \<and> finite_radii [(0, 8000), (1000, 4000), (2000, 3000)]
   \<and> sorted_wrt (<) (map fst [(0 :: real, 8000 :: real), (1000, 4000), (2000, 3000)])
   \<and> fsub (fst (last [(0, 8000), (1000, 4000), (2000, 3000)])) 500
        < fst (last [(0 :: real, 8000 :: real), (1000, 4000), (2000, 3000)])
   \<and> (\<exists>lith. tab_parse 500 [[], [], [], [], [IntLit 0, IntLit 8000], [IntLit 1000, IntLit 4000],
                 [IntLit 2000, IntLit 3000]] None
          = Inr ([0, 1000, 2000], [8000, 4000, 0], 2000, lith))
   \<and> fst (last [(0 :: real, 8000 :: real), (1000, 4000), (2000, 3000)])
        \<le> fsub (fst (last [(0, 8000), (1000, 4000), (2000, 3000)])) 0
   \<and> tab_parse 0 [[], [], [], [], [IntLit 0, IntLit 8000], [IntLit 1000, IntLit 4000],
                 [IntLit 2000, IntLit 3000]] None = Inl IndexError"
proof -
  let ?D = "[[Word ''title''], [IntLit 0, IntLit 0, IntLit 1],
             [IntLit 3, IntLit 0, IntLit 1, IntLit 1],
             [FloatLit 1000, FloatLit 8000], [FloatLit 1000, FloatLit 4000],
             [FloatLit 2000, FloatLit 3000]]"
  let ?T = "[[], [], [], [], [IntLit 0, IntLit 8000], [IntLit 1000, IntLit 4000],
             [IntLit 2000, IntLit 3000]]"
  have h: "deck_header ?D = Inr (int 3, 1, 1)"
    by (simp add: deck_header_def item_def)
  have e: "deck_entries ?D 3 = map Inr [(1000, 8000), (1000, 4000), (2000, 3000)]"
    by (simp add: deck_entries_def read_entry_def item_def upt_rec)
  have t: "table_rows ?T = map Inr [(0, 8000), (1000, 4000), (2000, 3000)]"
    by (simp add: table_rows_def read_entry_def item_def upt_rec)
  have "(\<exists>v. deck_parse ?D init_vars = Inr v \<and> sorted_wrt (<) (radius v) \<and> last (rho v) = 0
          \<and> length (radius v) = num v \<and> length (rho v) = num v
          \<and> item (radius v) (int (num v) - 1) = Inr 2000
          \<and> item (rho v) (int (num v) - 1) = Inr 0)
      \<and> (\<exists>lith. tab_parse 500 ?T None = Inr ([0, 1000, 2000], [8000, 4000, 0], 2000, lith))
      \<and> tab_parse 0 ?T None = Inl IndexError"
    using parsed_profile_increasing_zero_surface
      [of ?D 3 1 1 "[(1000, 8000), (1000, 4000), (2000, 3000)]" init_vars
          ?T "[(0, 8000), (1000, 4000), (2000, 3000)]" 500 None]
      parsed_profile_increasing_zero_surface
      [of ?D 3 1 1 "[(1000, 8000), (1000, 4000), (2000, 3000)]" init_vars
          ?T "[(0, 8000), (1000, 4000), (2000, 3000)]" 0 None] h e t
    by (simp add: fl_defs finite_radii_def)
  then have "(\<exists>v. deck_parse ?D init_vars = Inr v \<and> sorted_wrt (<) (radius v) \<and> last (rho v) = 0)
      \<and> (\<exists>lith. tab_parse 500 ?T None = Inr ([0, 1000, 2000], [8000, 4000, 0], 2000, lith))
      \<and> tab_parse 0 ?T None = Inl IndexError"
    by blast
  then show ?thesis using h e t by (simp add: fl_defs finite_radii_def)
qed

section \<open>Properties of a whole model and of the batches\<close>

lemma ebind_eq_Inr: "ebind m f = Inr y \<longleftrightarrow> (\<exists>x. m = Inr x \<and> f x = Inr y)"
  by (cases m) simp_all

lemma set_item_eq_Inr:
  "set_item xs (int k) a = Inr ys \<longleftrightarrow> k < length xs \<and> ys = xs[k := a]"
  by (auto simp: set_item_def)


lemma deck_parse_shape:
  assumes "deck_parse lines st = Inr v"
  shows "length (radius v) = num v \<and> length (rho v) = num v \<and> 0 < num v \<and> last (rho v) = 0"
proof -
  obtain w t r1 d1 where w: "set_item (radius w) (int (num w)) t = Inr r1"
      "set_item (rho w) (int (num w)) 0 = Inr d1"
      "v = w\<lparr>radius := take (num w + 1) r1, rho := take (num w + 1) d1, num := num w + 1\<rparr>"
    using assms by (auto simp: deck_parse_def ebind_eq_Inr Let_def split: prod.splits)
  have r: "num w < length (radius w)" "r1 = (radius w)[num w := t]"
    using w(1) by (simp_all add: set_item_eq_Inr)
  have d: "num w < length (rho w)" "d1 = (rho w)[num w := 0]"
    using w(2) by (simp_all add: set_item_eq_Inr)
  have "last (take (num w + 1) d1) = d1 ! num w"
    using d by (simp add: take_Suc_conv_app_nth)
  then show ?thesis using w(3) r d by (simp add: min_def)
qed

lemma item_last: "xs \<noteq> [] \<Longrightarrow> item xs (- 1) = Inr (last xs)"
  by (cases xs rule: rev_cases) (simp_all add: item_def nat_add_distrib)

lemma item_pred:
  "item xs (int k - 1) = (if k = 0 then (if xs = [] then Inl IndexError else Inr (last xs))
      else if k - 1 < length xs then Inr (xs ! (k - 1)) else Inl IndexError)"
proof (cases k)
  case 0
  then show ?thesis using item_last [of xs] by (auto simp: item_def)
next
  case (Suc j)
  then show ?thesis using item_nat [of xs j] by simp
qed

text \<open>
  How the two loops call the locator: the surface radius \<^verbatim>\<open>r0_model\<close> is the last radius of
  the profile and the range of the scan is the length of the profile.
\<close>

lemma tab_fill_length:
  "tab_fill lines is (rs, ds) = Inr (rs', ds') \<Longrightarrow> length rs' = length rs \<and> length ds' = length ds"
proof (induction "is" arbitrary: rs ds)
  case Nil
  then show ?case by simp
next
  case (Cons i "is")
  from Cons.prems obtain r d where step: "set_item rs (int i) r = Inr (rs[i := r])"
      "set_item ds (int i) d = Inr (ds[i := d])"
      "tab_fill lines is (rs[i := r], ds[i := d]) = Inr (rs', ds')"
    by (auto simp: ebind_eq_Inr set_item_eq_Inr)
  show ?case using Cons.IH [OF step(3)] by simp
qed

lemma deck_model_locate_call:
  assumes "deck_parse lines st = Inr v"
  shows "item (radius v) (int (num v - 1)) = Inr (last (radius v))
       \<and> num v - 1 + 1 = length (radius v)"
proof -
  have s: "length (radius v) = num v" "0 < num v" using deck_parse_shape [OF assms] by auto
  then have "radius v \<noteq> []" by auto
  then show ?thesis using s item_nat [of "radius v" "num v - 1"] by (simp add: last_conv_nth)
qed

lemma tab_parse_locate_call:
  assumes "tab_parse d lines l0 = Inr (rs, ds, r0, lith)"
  shows "r0 = last rs \<and> rs \<noteq> []
       \<and> lith = (case locate rs (last rs) d (length rs) of Inr (Some k) \<Rightarrow> Some k | _ \<Rightarrow> l0)"
proof -
  let ?num = "int (length lines) - 4"
  obtain ds0 found where fill: "tab_fill lines [0..<nat ?num] (replicate (nat ?num) 0, replicate (nat ?num) 0)
        = Inr (rs, ds0)"
    and r0: "item rs (?num - 1) = Inr r0"
    and loc: "locate rs r0 d (nat ?num) = Inr found"
    and lith: "lith = (case found of None \<Rightarrow> l0 | Some k \<Rightarrow> Some k)"
    using assms
    by (auto simp: tab_parse_def np_zeros_def ebind_eq_Inr Let_def split: if_splits prod.splits)
  have len: "length rs = nat ?num" using tab_fill_length [OF fill] by simp
  have ne: "rs \<noteq> []" using r0 by (auto simp: item_def Let_def split: if_splits)
  have pos: "0 < ?num" using len ne by (cases "0 < ?num") auto
  have idx: "nat (?num - 1) = length rs - 1" using len pos by linarith
  have "r0 = last rs" using r0 ne pos len idx by (auto simp: item_def last_conv_nth split: if_splits)
  then show ?thesis using ne loc lith len by (auto split: option.splits)
qed

lemma spec_rows_length_mono:
  assumes "k \<le> k'"
  shows "length (spec_rows es k) \<le> length (spec_rows es k')"
proof -
  have "[0..<k'] = [0..<k] @ [k..<k']"
    using assms upt_add_eq_append [of 0 k "k' - k"] by simp
  then show ?thesis by (simp add: spec_rows_def)
qed

lemma item_not_runtime: "item xs k \<noteq> Inl RuntimeError"
  by (simp add: item_def Let_def)

lemma set_item_not_runtime: "set_item xs k a \<noteq> Inl RuntimeError"
  by (simp add: set_item_def Let_def)

lemma var_not_runtime: "var x \<noteq> Inl RuntimeError"
  by (cases x) (simp_all add: var_def)

lemma np_zeros_not_runtime: "np_zeros k \<noteq> Inl RuntimeError"
  by (simp add: np_zeros_def)

lemma py_float_not_runtime: "py_float f \<noteq> Inl RuntimeError"
  by (cases f) simp_all

lemma py_int_not_runtime: "py_int f \<noteq> Inl RuntimeError"
  by (cases f) simp_all

lemmas not_runtime = item_not_runtime set_item_not_runtime var_not_runtime np_zeros_not_runtime
  py_float_not_runtime py_int_not_runtime

lemma ebind_eq_Inl: "ebind m f = Inl e \<longleftrightarrow> m = Inl e \<or> (\<exists>x. m = Inr x \<and> f x = Inl e)"
  by (cases m) simp_all

lemma read_entry_not_runtime: "read_entry lines k \<noteq> Inl RuntimeError"
  by (simp add: read_entry_def ebind_eq_Inl not_runtime)

lemma deck_body_not_runtime: "deck_body lines cf kf i v \<noteq> Inl RuntimeError"
  by (auto simp: deck_body_def ebind_eq_Inl not_runtime read_entry_not_runtime Let_def
        split: prod.splits if_splits)

lemma deck_loop_not_runtime: "deck_loop lines cf kf is v \<noteq> Inl RuntimeError"
  by (induction "is" arbitrary: v) (auto simp: ebind_eq_Inl deck_body_not_runtime)

lemma locate_not_runtime: "locate rs r0 d m \<noteq> Inl RuntimeError"
  using locate_scan_total [of rs r0 d "[0..<m]"] by (auto simp: locate_def)

lemma deck_batch_append:
  "deck_batch hydro d (pre @ post) st = ebind (deck_batch hydro d pre st) (deck_batch hydro d post)"
  by (induction pre arbitrary: st) (auto simp: ebind_def split: sum.splits)

lemma tab_model_stats:
  assumes "tab_model hydro d lines st = Inr st'"
  shows "\<exists>p rs ds il. percents st' = percents st @ [p]
           \<and> calls st' = calls st @ [(rs, ds, il)] \<and> p = hydro rs ds il
           \<and> pmax st' = max (pmax st) p \<and> pmin st' = min (pmin st) p"
proof -
  obtain rs ds r0 lith where p: "tab_parse d lines (i_lith st) = Inr (rs, ds, r0, lith)"
    using assms by (auto simp: tab_model_def ebind_eq_Inr)
  obtain il where il: "var lith = Inr il"
    using assms p by (auto simp: tab_model_def ebind_eq_Inr)
  obtain r_lith where rl: "item rs (int il) = Inr r_lith"
    using assms p il by (auto simp: tab_model_def ebind_eq_Inr)
  define st1 where "st1 = st\<lparr>i_lith := lith, calls := calls st @ [(rs, ds, il)],
                  tab_out := tab_out st @ [(r0, fsub r0 r_lith, hydro rs ds il)]\<rparr>"
  define st2 where "st2 = (if hydro rs ds il > pmax st1 then st1\<lparr>pmax := hydro rs ds il\<rparr> else st1)"
  have st': "st' = (if hydro rs ds il < pmin st2 then st2\<lparr>pmin := hydro rs ds il\<rparr> else st2)"
    using assms p il rl by (auto simp: tab_model_def Let_def st1_def st2_def split: if_splits)
  have "percents st' = percents st @ [hydro rs ds il]"
    and "calls st' = calls st @ [(rs, ds, il)]"
    and "pmax st' = max (pmax st) (hydro rs ds il)"
    and "pmin st' = min (pmin st) (hydro rs ds il)"
    unfolding st' st2_def st1_def by (simp_all add: percents_def)
  then show ?thesis by blast
qed

lemma tab_batch_stats:
  assumes "tab_batch hydro d models st = Inr st'"
  shows "\<exists>ps cs. percents st' = percents st @ ps \<and> calls st' = calls st @ cs
           \<and> ps = map (\<lambda>(rs, ds, il). hydro rs ds il) cs
           \<and> pmin st' = fold min ps (pmin st) \<and> pmax st' = fold max ps (pmax st)"
  using assms
proof (induction models arbitrary: st)
  case Nil
  then show ?case by simp
next
  case (Cons m models)
  obtain ext lines where m: "m = (ext, lines)" by (cases m)
  show ?case
  proof (cases "ext = ''.dat''")
    case False
    then show ?thesis using Cons m by simp
  next
    case True
    then obtain st1 where s1: "tab_model hydro d lines st = Inr st1"
      and rest: "tab_batch hydro d models st1 = Inr st'"
      using Cons.prems m by (auto simp: ebind_eq_Inr)
    obtain p rs ds il where one: "percents st1 = percents st @ [p]"
        "calls st1 = calls st @ [(rs, ds, il)]" "p = hydro rs ds il"
        "pmax st1 = max (pmax st) p" "pmin st1 = min (pmin st) p"
      using tab_model_stats [OF s1] by blast
    obtain ps cs where more: "percents st' = percents st1 @ ps" "calls st' = calls st1 @ cs"
        "ps = map (\<lambda>(rs, ds, il). hydro rs ds il) cs"
        "pmin st' = fold min ps (pmin st1)" "pmax st' = fold max ps (pmax st1)"
      using Cons.IH [OF rest] by blast
    show ?thesis
      using one more
      by (intro exI [of _ "p # ps"] exI [of _ "(rs, ds, il) # cs"]) (simp add: min.commute max.commute)
  qed
qed

lemma fold_min_Min: "fold min ps (a::real) = Min (insert a (set ps))"
  using Min.set_eq_fold [of a ps] by simp

lemma fold_max_Max: "fold max ps (a::real) = Max (insert a (set ps))"
  using Max.set_eq_fold [of a ps] by simp

lemma tab_batch_min_max:
  assumes "tab_batch hydro d models (start_tab st0) = Inr st'"
  shows "pmin st' = Min (insert 100 (set (percents st')))"
    and "pmax st' = Max (insert 0 (set (percents st')))"
    and "map (\<lambda>(rs, ds, il). hydro rs ds il) (drop (length (calls st0)) (calls st')) = percents st'"
proof -
  obtain ps cs where s: "percents st' = percents (start_tab st0) @ ps"
      "calls st' = calls (start_tab st0) @ cs"
      "ps = map (\<lambda>(rs, ds, il). hydro rs ds il) cs"
      "pmin st' = fold min ps (pmin (start_tab st0))" "pmax st' = fold max ps (pmax (start_tab st0))"
    using tab_batch_stats [OF assms] by blast
  have p: "percents st' = ps" using s(1) by (simp add: start_tab_def percents_def)
  show "pmin st' = Min (insert 100 (set (percents st')))"
    using s(4) p by (simp add: fold_min_Min start_tab_def)
  show "pmax st' = Max (insert 0 (set (percents st')))"
    using s(5) p by (simp add: fold_max_Max start_tab_def)
  show "map (\<lambda>(rs, ds, il). hydro rs ds il) (drop (length (calls st0)) (calls st')) = percents st'"
    using s(2,3) p by (simp add: start_tab_def)
qed

text \<open>The definitions unfolded when a run is evaluated on a concrete input.\<close>

lemmas eval_defs = tab_model_def tab_parse_def np_zeros_def item_def set_item_def locate_def
  var_def upt_rec start_tab_def init_vars_def Let_def deck_model_def deck_parse_def deck_header_def
  deck_start_def deck_body_def read_entry_def eval_nat_numeral fsub_def fadd_def fdiv_def

text \<open>
  Claim C4, as the code has it.  The script has no guard for a target radius outside the
  profile.  On a non-empty profile without a bracketing pair for the computed target
  \<open>fsub (last rs) d\<close>, the scan raises \<^verbatim>\<open>IndexError\<close> when the target is not below the
  surface radius, as for every thickness of zero or less, and otherwise ends without an
  error and without assigning \<^verbatim>\<open>i_lith\<close>; the latter is what happens when the thickness
  exceeds the surface radius of a profile without negative radii.
\<close>

theorem locate_without_bracketing_pair:
  assumes "rs \<noteq> []"
  shows "(\<not> (\<exists>i. Suc i < length rs \<and> rs ! i \<le> fsub (last rs) d
                \<and> fsub (last rs) d < rs ! Suc i) \<longrightarrow>
            locate rs (last rs) d (length rs)
              = (if last rs \<le> fsub (last rs) d then Inl IndexError else Inr None))
       \<and> (d \<le> 0 \<and> is_double (last rs) \<longrightarrow> last rs \<le> fsub (last rs) d)
       \<and> ((\<forall>r\<in>set rs. 0 \<le> r) \<and> is_double (last rs) \<and> is_double d \<and> last rs < d \<longrightarrow>
            locate rs (last rs) d (length rs) = Inr None)"
proof (intro conjI impI)
  assume nb: "\<not> (\<exists>i. Suc i < length rs \<and> rs ! i \<le> fsub (last rs) d
                \<and> fsub (last rs) d < rs ! Suc i)"
  obtain n where n: "length rs = Suc n" using assms by (cases rs) auto
  have lst: "last rs = rs ! n" using assms n by (simp add: last_conv_nth)
  have skip: "\<forall>j\<in>set [0..<n]. j < length rs \<and>
      (rs ! j \<le> fsub (last rs) d \<longrightarrow> Suc j < length rs \<and> rs ! Suc j \<le> fsub (last rs) d)"
    using nb n by (auto simp: not_less)
  have pre: "locate_scan rs (last rs) d ([0..<n] @ [n]) = locate_scan rs (last rs) d [n]"
    using skip by (rule locate_scan_skip)
  have "locate_scan rs (last rs) d [n]
      = (if last rs \<le> fsub (last rs) d then Inl IndexError else Inr None)"
    using n lst by (simp add: item_nat item_Suc)
  then show "locate rs (last rs) d (length rs)
      = (if last rs \<le> fsub (last rs) d then Inl IndexError else Inr None)"
    using pre by (simp add: locate_def n)
next
  assume "d \<le> 0 \<and> is_double (last rs)"
  then show "last rs \<le> fsub (last rs) d" by (intro fsub_not_below) auto
next
  assume a: "(\<forall>r\<in>set rs. 0 \<le> r) \<and> is_double (last rs) \<and> is_double d \<and> last rs < d"
  then have "fsub (last rs) d < 0" by (intro fsub_negative) auto
  then have "\<forall>j<length rs. j < length rs \<and> fsub (last rs) d < rs ! j"
    using a by (auto intro: less_le_trans [where y = 0])
  then show "locate rs (last rs) d (length rs) = Inr None"
    by (rule locate_none)
qed

theorem locate_without_bracketing_pair_witness:
  "[0, 10, 20, 30 :: real] \<noteq> []
   \<and> \<not> (\<exists>i. Suc i < length [0, 10, 20, 30 :: real]
           \<and> [0, 10, 20, 30 :: real] ! i \<le> fsub (last [0, 10, 20, 30]) 40
           \<and> fsub (last [0, 10, 20, 30 :: real]) 40 < [0, 10, 20, 30] ! Suc i)
   \<and> is_double (last [0, 10, 20, 30]) \<and> is_double 40
   \<and> last [0, 10, 20, 30 :: real] < 40
   \<and> locate [0, 10, 20, 30] (last [0, 10, 20, 30]) 40 (length [0, 10, 20, 30 :: real]) = Inr None
   \<and> \<not> (\<exists>i. Suc i < length [0, 10, 20, 30 :: real]
           \<and> [0, 10, 20, 30 :: real] ! i \<le> fsub (last [0, 10, 20, 30]) 0
           \<and> fsub (last [0, 10, 20, 30 :: real]) 0 < [0, 10, 20, 30] ! Suc i)
   \<and> last [0, 10, 20, 30] \<le> fsub (last [0, 10, 20, 30 :: real]) 0
   \<and> locate [0, 10, 20, 30] (last [0, 10, 20, 30]) 0 (length [0, 10, 20, 30 :: real])
       = Inl IndexError"
proof -
  have a: "\<not> (\<exists>i. Suc i < length [0, 10, 20, 30 :: real]
           \<and> [0, 10, 20, 30 :: real] ! i \<le> fsub (last [0, 10, 20, 30]) 40
           \<and> fsub (last [0, 10, 20, 30 :: real]) 40 < [0, 10, 20, 30] ! Suc i)"
    by (auto simp: less_Suc_eq nth_Cons' fl_defs)
  have b: "\<not> (\<exists>i. Suc i < length [0, 10, 20, 30 :: real]
           \<and> [0, 10, 20, 30 :: real] ! i \<le> fsub (last [0, 10, 20, 30]) 0
           \<and> fsub (last [0, 10, 20, 30 :: real]) 0 < [0, 10, 20, 30] ! Suc i)"
    by (auto simp: less_Suc_eq nth_Cons' fl_defs)
  have c: "is_double (last [0, 10, 20, 30])" "is_double 40"
    by (simp_all add: is_double_def)
  have "locate [0, 10, 20, 30] (last [0, 10, 20, 30]) 40 (length [0, 10, 20, 30 :: real]) = Inr None
      \<and> last [0, 10, 20, 30] \<le> fsub (last [0, 10, 20, 30 :: real]) 0
      \<and> locate [0, 10, 20, 30] (last [0, 10, 20, 30]) 0 (length [0, 10, 20, 30 :: real])
          = Inl IndexError"
    using locate_without_bracketing_pair [of "[0, 10, 20, 30]" 40]
      locate_without_bracketing_pair [of "[0, 10, 20, 30]" 0] a b c
    by (simp add: fl_defs)
  then show ?thesis using a b c by simp
qed

text \<open>
  The claim as stated fails: with thickness 500 the second model, of surface radius 200,
  has no bracketing pair, yet the batch ends without any error and the second external
  call receives the index 1 located for the first model.
\<close>

theorem locate_out_of_range_counterexample:
  "locate [0, 100, 200] 200 500 3 = Inr None
   \<and> tab_batch (\<lambda>radius rho i_lith. 0) 500
       [(''.dat'', [[], [], [], [], [IntLit 0, IntLit 8000], [IntLit 1000, IntLit 4000],
                    [IntLit 2000, IntLit 3000]]),
        (''.dat'', [[], [], [], [], [IntLit 0, IntLit 9000], [IntLit 100, IntLit 5000],
                    [IntLit 200, IntLit 2000]])]
       (start_tab init_vars)
     = Inr \<lparr>i_lith = Some 1, i_crust = None, i_core = None, rt = None,
            calls = [([0, 1000, 2000], [8000, 4000, 0], 1), ([0, 100, 200], [9000, 5000, 0], 1)],
            deck_out = [], pmin = 0, pmax = 0,
            tab_out = [(2000, 1000, 0), (200, 100, 0)]\<rparr>"
  by (simp add: eval_defs)

text \<open>
  Claim C5, as the code has it.  A readable deck with finite radii whose declared crust (or
  core) number does not fall on a boundary pair is parsed without an error, and \<^verbatim>\<open>i_crust\<close>
  (\<^verbatim>\<open>i_core\<close>) keeps the value it had before the file.  When the locator returns (the computed
  target is below the surface radius), the read \<^verbatim>\<open>rho[i_crust-1]\<close> raises
  \<^verbatim>\<open>UnboundLocalError\<close> if \<^verbatim>\<open>i_crust\<close> was never bound; so does \<^verbatim>\<open>rho[i_core-1]\<close> if the
  crust marker matched in this deck and \<^verbatim>\<open>i_core\<close> was never bound.  When the computed target
  is not below the surface radius of a deck with radii that never decrease, the locator,
  which runs first, raises \<^verbatim>\<open>IndexError\<close>.
\<close>

theorem unmatched_marker_keeps_index:
  assumes hdr: "deck_header lines = Inr (int N, crust_f, core_f)"
    and N: "2 \<le> N"
    and ent: "deck_entries lines N = map Inr es"
    and fin: "finite_radii es"
  shows "(\<exists>v. deck_parse lines st = Inr v
            \<and> (\<not> marker_pair es (N - 1) (crust_f - 1) \<longrightarrow> i_crust v = i_crust st)
            \<and> (\<not> marker_pair es (N - 1) (core_f - 1) \<longrightarrow> i_core v = i_core st))
       \<and> (fsub (fst (es ! (N - 1))) d < fst (es ! (N - 1))
            \<and> \<not> marker_pair es (N - 1) (crust_f - 1) \<and> i_crust st = None \<longrightarrow>
            deck_model hydro d lines st = Inl UnboundLocalError)
       \<and> (fsub (fst (es ! (N - 1))) d < fst (es ! (N - 1))
            \<and> marker_pair es (N - 1) (crust_f - 1)
            \<and> \<not> marker_pair es (N - 1) (core_f - 1) \<and> i_core st = None \<longrightarrow>
            deck_model hydro d lines st = Inl UnboundLocalError)
       \<and> (fst (es ! (N - 1)) \<le> fsub (fst (es ! (N - 1))) d \<and> sorted (map fst es) \<longrightarrow>
            deck_model hydro d lines st = Inl IndexError)"
proof (intro conjI impI)
  show "\<exists>v. deck_parse lines st = Inr v
            \<and> (\<not> marker_pair es (N - 1) (crust_f - 1) \<longrightarrow> i_crust v = i_crust st)
            \<and> (\<not> marker_pair es (N - 1) (core_f - 1) \<longrightarrow> i_core v = i_core st)"
    unfolding deck_parse_valid [OF hdr N ent] by (simp add: spec_marker_def)
next
  let ?rows = "spec_rows es (N - 1)"
  let ?rs = "map fst ?rows @ [fst (es ! (N - 1))]"
  have loc: "\<exists>found. locate ?rs (fst (es ! (N - 1))) d (Suc (length ?rows)) = Inr found"
    if "fsub (fst (es ! (N - 1))) d < fst (es ! (N - 1))"
    using locate_target_below_surface [of ?rs d] that by simp
  have r0: "item ?rs (int (length ?rows)) = Inr (fst (es ! (N - 1)))"
    by (simp add: item_def nth_append)
  {
    assume a: "fsub (fst (es ! (N - 1))) d < fst (es ! (N - 1))
        \<and> \<not> marker_pair es (N - 1) (crust_f - 1) \<and> i_crust st = None"
    obtain found where f: "locate ?rs (fst (es ! (N - 1))) d (Suc (length ?rows)) = Inr found"
      using loc a by blast
    show "deck_model hydro d lines st = Inl UnboundLocalError"
      unfolding deck_model_def deck_parse_valid [OF hdr N ent]
      using a f r0 by (simp add: spec_marker_def var_def)
  }
  {
    assume a: "fsub (fst (es ! (N - 1))) d < fst (es ! (N - 1))
            \<and> marker_pair es (N - 1) (crust_f - 1)
            \<and> \<not> marker_pair es (N - 1) (core_f - 1) \<and> i_core st = None"
    obtain found where f: "locate ?rs (fst (es ! (N - 1))) d (Suc (length ?rows)) = Inr found"
      using loc a by blast
    have "nat (crust_f - 1) \<le> N - 1" using a by (simp add: marker_pair_def)
    then have le: "length (spec_rows es (nat (crust_f - 1))) \<le> length ?rows"
      by (rule spec_rows_length_mono)
    have "\<exists>x. item (map snd ?rows @ [0]) (int (length (spec_rows es (nat (crust_f - 1)))) - 1) = Inr x"
      using le by (auto simp: item_pred)
    then obtain x where x: "item (map snd ?rows @ [0])
        (int (length (spec_rows es (nat (crust_f - 1)))) - 1) = Inr x" ..
    show "deck_model hydro d lines st = Inl UnboundLocalError"
      unfolding deck_model_def deck_parse_valid [OF hdr N ent]
      using a f r0 x by (simp add: spec_marker_def var_def)
  }
  {
    assume a: "fst (es ! (N - 1)) \<le> fsub (fst (es ! (N - 1))) d \<and> sorted (map fst es)"
    have len: "length es = N" by (rule deck_entries_length [OF ent])
    have inc: "sorted_wrt (<) ?rs"
      using N len a by (intro spec_rows_increasing) auto
    have "locate ?rs (last ?rs) d (length ?rs) = Inl IndexError"
      using inc a by (intro locate_index_error_sorted) auto
    then have f: "locate ?rs (fst (es ! (N - 1))) d (Suc (length ?rows)) = Inl IndexError"
      by simp
    show "deck_model hydro d lines st = Inl IndexError"
      unfolding deck_model_def deck_parse_valid [OF hdr N ent]
      using f r0 by simp
  }
qed

theorem unmatched_marker_keeps_index_witness:
  "deck_header [[Word ''title''], [IntLit 0, IntLit 0, IntLit 1],
                [IntLit 3, IntLit 0, IntLit 1, IntLit 1],
                [FloatLit 0, FloatLit 8000], [FloatLit 1000, FloatLit 4000],
                [FloatLit 2000, FloatLit 3000]] = Inr (int 3, 1, 1)
   \<and> (2::nat) \<le> 3
   \<and> deck_entries [[Word ''title''], [IntLit 0, IntLit 0, IntLit 1],
                [IntLit 3, IntLit 0, IntLit 1, IntLit 1],
                [FloatLit 0, FloatLit 8000], [FloatLit 1000, FloatLit 4000],
                [FloatLit 2000, FloatLit 3000]] 3
       = map Inr [(0, 8000), (1000, 4000), (2000, 3000)]
   \<and> finite_radii [(0, 8000), (1000, 4000), (2000, 3000)]
   \<and> fsub (fst ([(0, 8000), (1000, 4000), (2000, 3000)] ! (3 - 1))) 500
        < fst ([(0 :: real, 8000 :: real), (1000, 4000), (2000, 3000)] ! (3 - 1))
   \<and> \<not> marker_pair [(0, 8000), (1000, 4000), (2000, 3000)] (3 - 1) (1 - 1)
   \<and> i_crust init_vars = None
   \<and> deck_model (\<lambda>radius rho i_lith. 0) 500 [[Word ''title''], [IntLit 0, IntLit 0, IntLit 1],
                [IntLit 3, IntLit 0, IntLit 1, IntLit 1],
                [FloatLit 0, FloatLit 8000], [FloatLit 1000, FloatLit 4000],
                [FloatLit 2000, FloatLit 3000]] init_vars = Inl UnboundLocalError
   \<and> fst ([(0 :: real, 8000 :: real), (1000, 4000), (2000, 3000)] ! (3 - 1))
        \<le> fsub (fst ([(0, 8000), (1000, 4000), (2000, 3000)] ! (3 - 1))) 0
   \<and> sorted (map fst [(0 :: real, 8000 :: real), (1000, 4000), (2000, 3000)])
   \<and> deck_model (\<lambda>radius rho i_lith. 0) 0 [[Word ''title''], [IntLit 0, IntLit 0, IntLit 1],
                [IntLit 3, IntLit 0, IntLit 1, IntLit 1],
                [FloatLit 0, FloatLit 8000], [FloatLit 1000, FloatLit 4000],
                [FloatLit 2000, FloatLit 3000]] init_vars = Inl IndexError
   \<and> deck_header [[Word ''title''], [IntLit 0, IntLit 0, IntLit 1],
                [IntLit 3, IntLit 0, IntLit 2, IntLit 1],
                [FloatLit 1000, FloatLit 8000], [FloatLit 1000, FloatLit 4000],
                [FloatLit 2000, FloatLit 3000]] = Inr (int 3, 1, 2)
   \<and> deck_entries [[Word ''title''], [IntLit 0, IntLit 0, IntLit 1],
                [IntLit 3, IntLit 0, IntLit 2, IntLit 1],
                [FloatLit 1000, FloatLit 8000], [FloatLit 1000, FloatLit 4000],
                [FloatLit 2000, FloatLit 3000]] 3
       = map Inr [(1000, 8000), (1000, 4000), (2000, 3000)]
   \<and> finite_radii [(1000, 8000), (1000, 4000), (2000, 3000)]
   \<and> fsub (fst ([(1000, 8000), (1000, 4000), (2000, 3000)] ! (3 - 1))) 500
        < fst ([(1000 :: real, 8000 :: real), (1000, 4000), (2000, 3000)] ! (3 - 1))
   \<and> marker_pair [(1000, 8000), (1000, 4000), (2000, 3000)] (3 - 1) (1 - 1)
   \<and> \<not> marker_pair [(1000, 8000), (1000, 4000), (2000, 3000)] (3 - 1) (2 - 1)
   \<and> i_core init_vars = None
   \<and> deck_model (\<lambda>radius rho i_lith. 0) 500 [[Word ''title''], [IntLit 0, IntLit 0, IntLit 1],
                [IntLit 3, IntLit 0, IntLit 2, IntLit 1],
                [FloatLit 1000, FloatLit 8000], [FloatLit 1000, FloatLit 4000],
                [FloatLit 2000, FloatLit 3000]] init_vars = Inl UnboundLocalError"
proof -
  let ?B = "[[Word ''title''], [IntLit 0, IntLit 0, IntLit 1],
                [IntLit 3, IntLit 0, IntLit 1, IntLit 1],
                [FloatLit 0, FloatLit 8000], [FloatLit 1000, FloatLit 4000],
                [FloatLit 2000, FloatLit 3000]]"
  let ?C = "[[Word ''title''], [IntLit 0, IntLit 0, IntLit 1],
                [IntLit 3, IntLit 0, IntLit 2, IntLit 1],
                [FloatLit 1000, FloatLit 8000], [FloatLit 1000, FloatLit 4000],
                [FloatLit 2000, FloatLit 3000]]"
  let ?h = "\<lambda>(radius :: real list) (rho :: real list) (i_lith :: nat). 0 :: real"
  have h: "deck_header ?B = Inr (int 3, 1, 1)"
    by (simp add: deck_header_def item_def)
  have e: "deck_entries ?B 3 = map Inr [(0, 8000), (1000, 4000), (2000, 3000)]"
    by (simp add: deck_entries_def read_entry_def item_def upt_rec)
  have hc: "deck_header ?C = Inr (int 3, 1, 2)"
    by (simp add: deck_header_def item_def)
  have ec: "deck_entries ?C 3 = map Inr [(1000, 8000), (1000, 4000), (2000, 3000)]"
    by (simp add: deck_entries_def read_entry_def item_def upt_rec)
  have n: "(2::nat) \<le> 3" by simp
  have f: "finite_radii [(0 :: real, 8000 :: real), (1000, 4000), (2000, 3000)]"
    by (simp add: finite_radii_def)
  have fc: "finite_radii [(1000 :: real, 8000 :: real), (1000, 4000), (2000, 3000)]"
    by (simp add: finite_radii_def)
  have m: "\<not> marker_pair [(0 :: real, 8000 :: real), (1000, 4000), (2000, 3000)] (3 - 1) (1 - 1)"
    by (simp add: marker_pair_def boundary_pair_def)
  have mc: "marker_pair [(1000 :: real, 8000 :: real), (1000, 4000), (2000, 3000)] (3 - 1) (1 - 1)"
      "\<not> marker_pair [(1000 :: real, 8000 :: real), (1000, 4000), (2000, 3000)] (3 - 1) (2 - 1)"
    by (simp_all add: marker_pair_def boundary_pair_def)
  have "deck_model ?h 500 ?B init_vars = Inl UnboundLocalError
      \<and> deck_model ?h 0 ?B init_vars = Inl IndexError"
    using unmatched_marker_keeps_index [OF h n e f, of init_vars 500 ?h]
      unmatched_marker_keeps_index [OF h n e f, of init_vars 0 ?h] m
    by (simp add: init_vars_def fl_defs)
  moreover have "deck_model ?h 500 ?C init_vars = Inl UnboundLocalError"
    using unmatched_marker_keeps_index [OF hc n ec fc, of init_vars 500 ?h] mc
    by (simp add: init_vars_def fl_defs)
  ultimately show ?thesis using h e hc ec m mc f fc
    by (simp add: init_vars_def fl_defs)
qed

text \<open>
  The claim as stated fails: the markers of the second deck fall on a layer pair, and the
  run ends without an error, reporting the second model with the indices of the first.
\<close>

theorem unmatched_marker_counterexample:
  "deck_batch (\<lambda>radius rho i_lith. 0) 500
     [[[Word ''title''], [IntLit 0, IntLit 0, IntLit 1], [IntLit 3, IntLit 0, IntLit 1, IntLit 1],
       [FloatLit 1000, FloatLit 8000], [FloatLit 1000, FloatLit 4000], [FloatLit 2000, FloatLit 3000]],
      [[Word ''title''], [IntLit 0, IntLit 0, IntLit 1], [IntLit 3, IntLit 0, IntLit 1, IntLit 1],
       [FloatLit 0, FloatLit 8000], [FloatLit 1000, FloatLit 4000], [FloatLit 2000, FloatLit 3000]]]
     init_vars
   = Inr \<lparr>i_lith = Some 1, i_crust = Some 0, i_core = Some 0, rt = Some 2000,
        calls = [([1000, 2000], [3500, 0], 0), ([0, 1000, 2000], [6000, 3500, 0], 1)],
        deck_out =
          [\<lparr>surface_radius = 2000, rho_mantle = 0, r_mantle = 1000,
              rho_core = 0, r_core = 1000, actual_depth = 1000, percent_h20 = 0\<rparr>,
           \<lparr>surface_radius = 2000, rho_mantle = 0, r_mantle = 0,
              rho_core = 0, r_core = 0, actual_depth = 1000, percent_h20 = 0\<rparr>]\<rparr>"
  by (simp add: eval_defs)

text \<open>
  Claim C6.  When line 0 and line 1 exist and field 2 of line 1 reads as the number
  \<open>flag\<close>: if \<open>flag\<close> is not 1, parsing raises the script's \<^verbatim>\<open>RuntimeError\<close> (the
  specification's \<open>UnsupportedModelFormat\<close>), so does the model, the batch stops there whatever
  files follow, and the whole run ends with this error; if \<open>flag\<close> is 1, neither parsing nor
  the rest of the model raises it.
\<close>

theorem polynomial_flag_aborts_run:
  assumes "item lines 0 = Inr title" and "item lines 1 = Inr data"
    and "item data 2 = Inr f" and "py_float f = Inr flag"
  shows "(flag \<noteq> 1 \<longrightarrow>
            deck_parse lines st = Inl RuntimeError
          \<and> deck_model hydro d lines st = Inl RuntimeError
          \<and> deck_batch hydro d (lines # rest) st = Inl RuntimeError
          \<and> (deck_batch hydro d pre init_vars = Inr st \<longrightarrow>
               run hydro d (pre @ lines # rest) models = Inl RuntimeError))
       \<and> (flag = 1 \<longrightarrow>
            deck_parse lines st \<noteq> Inl RuntimeError
          \<and> deck_model hydro d lines st \<noteq> Inl RuntimeError)"
proof (intro conjI impI)
  assume ne: "flag \<noteq> 1"
  have h: "deck_header lines = Inl RuntimeError"
    using assms ne by (simp add: deck_header_def)
  show p: "deck_parse lines st = Inl RuntimeError" by (simp add: deck_parse_def h)
  show m: "deck_model hydro d lines st = Inl RuntimeError" by (simp add: deck_model_def p)
  show "deck_batch hydro d (lines # rest) st = Inl RuntimeError" by (simp add: m)
  assume "deck_batch hydro d pre init_vars = Inr st"
  then show "run hydro d (pre @ lines # rest) models = Inl RuntimeError"
    by (simp add: run_def deck_batch_append m)
next
  assume eq: "flag = 1"
  have h: "deck_header lines \<noteq> Inl RuntimeError"
    using assms eq by (simp add: deck_header_def ebind_eq_Inl not_runtime)
  show p: "deck_parse lines st \<noteq> Inl RuntimeError"
    using h by (auto simp: deck_parse_def ebind_eq_Inl not_runtime deck_loop_not_runtime Let_def
        split: prod.splits)
  show "deck_model hydro d lines st \<noteq> Inl RuntimeError"
    using p by (auto simp: deck_model_def ebind_eq_Inl not_runtime locate_not_runtime Let_def)
qed

theorem polynomial_flag_aborts_run_witness:
  "item [[Word ''title''], [IntLit 0, IntLit 0, IntLit 0], [IntLit 3, IntLit 0, IntLit 1, IntLit 1],
         [FloatLit 1000, FloatLit 8000], [FloatLit 1000, FloatLit 4000],
         [FloatLit 2000, FloatLit 3000]] 0 = Inr [Word ''title'']
   \<and> item [[Word ''title''], [IntLit 0, IntLit 0, IntLit 0], [IntLit 3, IntLit 0, IntLit 1, IntLit 1],
         [FloatLit 1000, FloatLit 8000], [FloatLit 1000, FloatLit 4000],
         [FloatLit 2000, FloatLit 3000]] 1 = Inr [IntLit 0, IntLit 0, IntLit 0]
   \<and> item [IntLit 0, IntLit 0, IntLit 0] 2 = Inr (IntLit 0)
   \<and> py_float (IntLit 0) = Inr 0
   \<and> (0 :: real) \<noteq> 1
   \<and> deck_batch (\<lambda>radius rho i_lith. 0) 500
        [[[Word ''title''], [IntLit 0, IntLit 0, IntLit 0], [IntLit 3, IntLit 0, IntLit 1, IntLit 1],
          [FloatLit 1000, FloatLit 8000], [FloatLit 1000, FloatLit 4000],
          [FloatLit 2000, FloatLit 3000]],
         [[Word ''title''], [IntLit 0, IntLit 0, IntLit 1], [IntLit 3, IntLit 0, IntLit 1, IntLit 1],
          [FloatLit 1000, FloatLit 8000], [FloatLit 1000, FloatLit 4000],
          [FloatLit 2000, FloatLit 3000]]] init_vars = Inl RuntimeError
   \<and> item [[Word ''title''], [IntLit 0, IntLit 0, IntLit 1], [IntLit 3, IntLit 0, IntLit 1, IntLit 1],
         [FloatLit 1000, FloatLit 8000], [FloatLit 1000, FloatLit 4000],
         [FloatLit 2000, FloatLit 3000]] 1 = Inr [IntLit 0, IntLit 0, IntLit 1]
   \<and> item [IntLit 0, IntLit 0, IntLit 1] 2 = Inr (IntLit 1)
   \<and> py_float (IntLit 1) = Inr 1
   \<and> deck_model (\<lambda>radius rho i_lith. 0) 500
        [[Word ''title''], [IntLit 0, IntLit 0, IntLit 1], [IntLit 3, IntLit 0, IntLit 1, IntLit 1],
         [FloatLit 1000, FloatLit 8000], [FloatLit 1000, FloatLit 4000],
         [FloatLit 2000, FloatLit 3000]] init_vars \<noteq> Inl RuntimeError"
proof -
  let ?P = "[[Word ''title''], [IntLit 0, IntLit 0, IntLit 0], [IntLit 3, IntLit 0, IntLit 1, IntLit 1],
         [FloatLit 1000, FloatLit 8000], [FloatLit 1000, FloatLit 4000],
         [FloatLit 2000, FloatLit 3000]]"
  let ?A = "[[Word ''title''], [IntLit 0, IntLit 0, IntLit 1], [IntLit 3, IntLit 0, IntLit 1, IntLit 1],
         [FloatLit 1000, FloatLit 8000], [FloatLit 1000, FloatLit 4000],
         [FloatLit 2000, FloatLit 3000]]"
  have p0: "item ?P 0 = Inr [Word ''title'']" and p1: "item ?P 1 = Inr [IntLit 0, IntLit 0, IntLit 0]"
    and p2: "item [IntLit 0, IntLit 0, IntLit 0] 2 = Inr (IntLit 0)"
    and p3: "py_float (IntLit 0) = Inr 0"
    by (simp_all add: item_def)
  have a0: "item ?A 0 = Inr [Word ''title'']" and a1: "item ?A 1 = Inr [IntLit 0, IntLit 0, IntLit 1]"
    and a2: "item [IntLit 0, IntLit 0, IntLit 1] 2 = Inr (IntLit 1)"
    and a3: "py_float (IntLit 1) = Inr 1"
    by (simp_all add: item_def)
  show ?thesis
    using polynomial_flag_aborts_run [OF p0 p1 p2 p3, of init_vars "\<lambda>radius rho i_lith. 0" 500 "[?A]"]
      polynomial_flag_aborts_run [OF a0 a1 a2 a3, of init_vars "\<lambda>radius rho i_lith. 0" 500]
      p0 p1 p2 p3 a1 a2 a3
    by simp
qed

text \<open>
  Claim C7, as the code has it.  The accumulators start at \<^verbatim>\<open>pmin = 100\<close> and
  \<^verbatim>\<open>pmax = 0\<close>: a batch that returns reports the least of 100 and the percentages, and the
  greatest of 0 and the percentages, where the percentages are the values of the external
  routine at the calls of the batch.  The minimum is the smallest percentage when one of them
  is at most 100, the maximum the largest when one of them is at least 0.  Two batches that
  return the same percentages in any order report the same pair, and the percentages 10, 55,
  80 give 10 and 80.
\<close>

theorem batch_min_max_of_percentages:
  assumes "tab_batch hydro d models (start_tab st0) = Inr st'"
  shows "pmin st' = Min (insert 100 (set (percents st')))
       \<and> pmax st' = Max (insert 0 (set (percents st')))
       \<and> map (\<lambda>(rs, ds, il). hydro rs ds il) (drop (length (calls st0)) (calls st')) = percents st'
       \<and> ((\<exists>p\<in>set (percents st'). p \<le> 100) \<longrightarrow> pmin st' = Min (set (percents st')))
       \<and> ((\<exists>p\<in>set (percents st'). 0 \<le> p) \<longrightarrow> pmax st' = Max (set (percents st')))
       \<and> (\<forall>hydro2 d2 models2 st2 st2'.
            tab_batch hydro2 d2 models2 (start_tab st2) = Inr st2'
            \<and> mset (percents st2') = mset (percents st') \<longrightarrow>
            pmin st2' = pmin st' \<and> pmax st2' = pmax st')
       \<and> (set (percents st') = {10, 55, 80} \<longrightarrow> pmin st' = 10 \<and> pmax st' = 80)"
proof (intro conjI impI allI)
  note mm = tab_batch_min_max [OF assms]
  show a: "pmin st' = Min (insert 100 (set (percents st')))" by (rule mm(1))
  show b: "pmax st' = Max (insert 0 (set (percents st')))" by (rule mm(2))
  show "map (\<lambda>(rs, ds, il). hydro rs ds il) (drop (length (calls st0)) (calls st')) = percents st'"
    by (rule mm(3))
  {
    assume "\<exists>p\<in>set (percents st'). p \<le> 100"
    then obtain p where p: "p \<in> set (percents st')" "p \<le> 100" by blast
    then have ne: "set (percents st') \<noteq> {}" by auto
    have "Min (set (percents st')) \<le> p" using p(1) by simp
    then have le: "Min (set (percents st')) \<le> 100" using p(2) by linarith
    have "Min (insert 100 (set (percents st'))) = min 100 (Min (set (percents st')))"
      using ne by (intro Min_insert) auto
    then show "pmin st' = Min (set (percents st'))"
      unfolding a using le by linarith
  }
  {
    assume "\<exists>p\<in>set (percents st'). 0 \<le> p"
    then obtain p where p: "p \<in> set (percents st')" "0 \<le> p" by blast
    then have ne: "set (percents st') \<noteq> {}" by auto
    have "p \<le> Max (set (percents st'))" using p(1) by simp
    then have le: "0 \<le> Max (set (percents st'))" using p(2) by linarith
    have "Max (insert 0 (set (percents st'))) = max 0 (Max (set (percents st')))"
      using ne by (intro Max_insert) auto
    then show "pmax st' = Max (set (percents st'))"
      unfolding b using le by linarith
  }
  {
    fix hydro2 :: collaborator and d2 models2 st2 st2'
    assume h: "tab_batch hydro2 d2 models2 (start_tab st2) = Inr st2'
            \<and> mset (percents st2') = mset (percents st')"
    then have "set (percents st2') = set (percents st')" by (metis set_mset_mset)
    then show "pmin st2' = pmin st'" "pmax st2' = pmax st'"
      using tab_batch_min_max(1,2) [of hydro2 d2 models2 st2 st2'] h a b by simp_all
  }
  {
    assume "set (percents st') = {10, 55, 80}"
    then show "pmin st' = 10" "pmax st' = 80" using a b by simp_all
  }
qed


theorem batch_min_max_of_percentages_witness:
  "tab_batch (\<lambda>radius rho i_lith. rho ! 0) 500
       [(''.dat'', [[], [], [], [], [IntLit 0, IntLit 10], [IntLit 1000, IntLit 4000], [IntLit 2000, IntLit 3000]]),
        (''.dat'', [[], [], [], [], [IntLit 0, IntLit 55], [IntLit 1000, IntLit 4000], [IntLit 2000, IntLit 3000]]),
        (''.dat'', [[], [], [], [], [IntLit 0, IntLit 80], [IntLit 1000, IntLit 4000], [IntLit 2000, IntLit 3000]])]
       (start_tab init_vars)
     = Inr \<lparr>i_lith = Some 1, i_crust = None, i_core = None, rt = None, calls = [([0, 1000, 2000], [10, 4000, 0], 1), ([0, 1000, 2000], [55, 4000, 0], 1), ([0, 1000, 2000], [80, 4000, 0], 1)], deck_out = [], pmin = 10, pmax = 80, tab_out = [(2000, 1000, 10), (2000, 1000, 55), (2000, 1000, 80)]\<rparr>
   \<and> tab_batch (\<lambda>radius rho i_lith. rho ! 0) 500
       [(''.dat'', [[], [], [], [], [IntLit 0, IntLit 80], [IntLit 1000, IntLit 4000], [IntLit 2000, IntLit 3000]]),
        (''.dat'', [[], [], [], [], [IntLit 0, IntLit 10], [IntLit 1000, IntLit 4000], [IntLit 2000, IntLit 3000]]),
        (''.dat'', [[], [], [], [], [IntLit 0, IntLit 55], [IntLit 1000, IntLit 4000], [IntLit 2000, IntLit 3000]])]
       (start_tab init_vars)
     = Inr \<lparr>i_lith = Some 1, i_crust = None, i_core = None, rt = None, calls = [([0, 1000, 2000], [80, 4000, 0], 1), ([0, 1000, 2000], [10, 4000, 0], 1), ([0, 1000, 2000], [55, 4000, 0], 1)], deck_out = [], pmin = 10, pmax = 80, tab_out = [(2000, 1000, 80), (2000, 1000, 10), (2000, 1000, 55)]\<rparr>
   \<and> pmin \<lparr>i_lith = Some 1, i_crust = None, i_core = None, rt = None, calls = [([0, 1000, 2000], [10, 4000, 0], 1), ([0, 1000, 2000], [55, 4000, 0], 1), ([0, 1000, 2000], [80, 4000, 0], 1)], deck_out = [], pmin = 10, pmax = 80, tab_out = [(2000, 1000, 10), (2000, 1000, 55), (2000, 1000, 80)]\<rparr> = 10
   \<and> pmax \<lparr>i_lith = Some 1, i_crust = None, i_core = None, rt = None, calls = [([0, 1000, 2000], [10, 4000, 0], 1), ([0, 1000, 2000], [55, 4000, 0], 1), ([0, 1000, 2000], [80, 4000, 0], 1)], deck_out = [], pmin = 10, pmax = 80, tab_out = [(2000, 1000, 10), (2000, 1000, 55), (2000, 1000, 80)]\<rparr> = 80
   \<and> pmin \<lparr>i_lith = Some 1, i_crust = None, i_core = None, rt = None, calls = [([0, 1000, 2000], [80, 4000, 0], 1), ([0, 1000, 2000], [10, 4000, 0], 1), ([0, 1000, 2000], [55, 4000, 0], 1)], deck_out = [], pmin = 10, pmax = 80, tab_out = [(2000, 1000, 80), (2000, 1000, 10), (2000, 1000, 55)]\<rparr> = 10
   \<and> pmax \<lparr>i_lith = Some 1, i_crust = None, i_core = None, rt = None, calls = [([0, 1000, 2000], [80, 4000, 0], 1), ([0, 1000, 2000], [10, 4000, 0], 1), ([0, 1000, 2000], [55, 4000, 0], 1)], deck_out = [], pmin = 10, pmax = 80, tab_out = [(2000, 1000, 80), (2000, 1000, 10), (2000, 1000, 55)]\<rparr> = 80"
proof -
  let ?h = "\<lambda>(radius :: real list) (rho :: real list) (i_lith :: nat). rho ! 0"
  let ?M1 = "[(''.dat'', [[], [], [], [], [IntLit 0, IntLit 10], [IntLit 1000, IntLit 4000], [IntLit 2000, IntLit 3000]]),
        (''.dat'', [[], [], [], [], [IntLit 0, IntLit 55], [IntLit 1000, IntLit 4000], [IntLit 2000, IntLit 3000]]),
        (''.dat'', [[], [], [], [], [IntLit 0, IntLit 80], [IntLit 1000, IntLit 4000], [IntLit 2000, IntLit 3000]])]"
  let ?M2 = "[(''.dat'', [[], [], [], [], [IntLit 0, IntLit 80], [IntLit 1000, IntLit 4000], [IntLit 2000, IntLit 3000]]),
        (''.dat'', [[], [], [], [], [IntLit 0, IntLit 10], [IntLit 1000, IntLit 4000], [IntLit 2000, IntLit 3000]]),
        (''.dat'', [[], [], [], [], [IntLit 0, IntLit 55], [IntLit 1000, IntLit 4000], [IntLit 2000, IntLit 3000]])]"
  let ?S1 = "\<lparr>i_lith = Some 1, i_crust = None, i_core = None, rt = None, calls = [([0, 1000, 2000], [10, 4000, 0], 1), ([0, 1000, 2000], [55, 4000, 0], 1), ([0, 1000, 2000], [80, 4000, 0], 1)], deck_out = [], pmin = 10, pmax = 80, tab_out = [(2000, 1000, 10), (2000, 1000, 55), (2000, 1000, 80)]\<rparr>"
  let ?S2 = "\<lparr>i_lith = Some 1, i_crust = None, i_core = None, rt = None, calls = [([0, 1000, 2000], [80, 4000, 0], 1), ([0, 1000, 2000], [10, 4000, 0], 1), ([0, 1000, 2000], [55, 4000, 0], 1)], deck_out = [], pmin = 10, pmax = 80, tab_out = [(2000, 1000, 80), (2000, 1000, 10), (2000, 1000, 55)]\<rparr>"
  have r1: "tab_batch ?h 500 ?M1 (start_tab init_vars) = Inr ?S1" by (simp add: eval_defs)
  have r2: "tab_batch ?h 500 ?M2 (start_tab init_vars) = Inr ?S2" by (simp add: eval_defs)
  have p1: "set (percents ?S1) = {10, 55, 80}" by (simp add: percents_def)
  have p2: "mset (percents ?S2) = mset (percents ?S1)" by (simp add: percents_def)
  have "pmin ?S1 = 10 \<and> pmax ?S1 = 80 \<and> pmin ?S2 = pmin ?S1 \<and> pmax ?S2 = pmax ?S1"
    using batch_min_max_of_percentages [OF r1] p1 r2 p2 by blast
  then show ?thesis using r1 r2 by simp
qed

text \<open>
  The claim as stated fails: for one model with the percentage 150 the reported minimum
  is 100, not 150.
\<close>

theorem minimum_starts_at_100_counterexample:
  "tab_batch (\<lambda>radius rho i_lith. rho ! 0) 500
       [(''.dat'', [[], [], [], [], [IntLit 0, IntLit 150], [IntLit 1000, IntLit 4000],
                    [IntLit 2000, IntLit 3000]])]
       (start_tab init_vars)
     = Inr \<lparr>i_lith = Some 1, i_crust = None, i_core = None, rt = None,
            calls = [([0, 1000, 2000], [150, 4000, 0], 1)],
            deck_out = [], pmin = 100, pmax = 150,
            tab_out = [(2000, 1000, 150)]\<rparr>"
  by (simp add: eval_defs)






end
